theory Spec2Isabelle
  imports Complex_Main "HOL-Library.Multiset" "HOL-Library.Char_ord"
begin

section \<open>Strings of the anagram module\<close>

text \<open>
  The module \<^verbatim>\<open>anagram.py\<close> works on Python \<^verbatim>\<open>str\<close> values, sequences of Unicode code
  points. Here a string is a \<^typ>\<open>string\<close> whose characters stand for the code points
  0 to 255 (the Latin-1 range), \<^term>\<open>of_char c\<close> being the code point. On that range
  \<^verbatim>\<open>str.strip\<close>, \<^verbatim>\<open>str.lower\<close>, \<^verbatim>\<open>str.isalpha\<close>, \<^verbatim>\<open>len\<close> and \<^verbatim>\<open>sorted\<close> work character by
  character, and the three character classes below are Python's own tables on it.
\<close>

definition isspace :: "char \<Rightarrow> bool" where
  \<comment> \<open>the characters \<^verbatim>\<open>str.strip()\<close> removes: TAB, LF, VT, FF, CR, FS, GS, RS, US, SPACE,
     NEL (0x85) and NBSP (0xA0)\<close>
  "isspace c =
     (let n = (of_char c :: nat)
      in (9 \<le> n \<and> n \<le> 13) \<or> (28 \<le> n \<and> n \<le> 32) \<or> n = 133 \<or> n = 160)"

definition isalpha_char :: "char \<Rightarrow> bool" where
  \<comment> \<open>the code points of a Unicode letter category: A-Z, a-z, 0xAA, 0xB5, 0xBA,
     0xC0-0xD6, 0xD8-0xF6, 0xF8-0xFF\<close>
  "isalpha_char c =
     (let n = (of_char c :: nat)
      in (65 \<le> n \<and> n \<le> 90) \<or> (97 \<le> n \<and> n \<le> 122) \<or> n = 170 \<or> n = 181 \<or> n = 186 \<or>
         (192 \<le> n \<and> n \<le> 214) \<or> (216 \<le> n \<and> n \<le> 246) \<or> (248 \<le> n \<and> n \<le> 255))"

definition lower_char :: "char \<Rightarrow> char" where
  \<comment> \<open>A-Z, 0xC0-0xD6 and 0xD8-0xDE have a lowercase form 32 places up\<close>
  "lower_char c =
     (let n = (of_char c :: nat)
      in if (65 \<le> n \<and> n \<le> 90) \<or> (192 \<le> n \<and> n \<le> 214) \<or> (216 \<le> n \<and> n \<le> 222)
         then char_of (n + 32) else c)"

definition is_az :: "char \<Rightarrow> bool" where
  \<comment> \<open>a letter a-z\<close>
  "is_az c = (let n = (of_char c :: nat) in 97 \<le> n \<and> n \<le> 122)"

definition is_ascii :: "char \<Rightarrow> bool" where
  "is_ascii c = ((of_char c :: nat) < 128)"

definition strip :: "string \<Rightarrow> string" where
  "strip s = rev (dropWhile isspace (rev (dropWhile isspace s)))"

definition lower :: "string \<Rightarrow> string" where
  "lower s = map lower_char s"

definition isalpha :: "string \<Rightarrow> bool" where
  \<comment> \<open>\<^verbatim>\<open>str.isalpha()\<close>: at least one character, and all of them alphabetic\<close>
  "isalpha s = (s \<noteq> [] \<and> list_all isalpha_char s)"

definition VOWELS :: "char set" where
  "VOWELS = set ''aeiou''"

section \<open>Errors and the module's global state\<close>

datatype error =
    FileNotFoundError           \<comment> \<open>the dictionary file does not exist\<close>
  | DictionaryEmpty             \<comment> \<open>ValueError: Dictionary file is empty\<close>
  | NotInitialized              \<comment> \<open>RuntimeError: Dictionary not initialized\<close>
  | NoWordsForBuckets           \<comment> \<open>RuntimeError: No words available to create difficulty buckets\<close>
  | EmptyInput string           \<comment> \<open>ValueError: \<open>name\<close> cannot be empty\<close>
  | NonAlphabetic string        \<comment> \<open>ValueError: \<open>name\<close> must contain only alphabetic characters\<close>
  | BadDifficulty               \<comment> \<open>ValueError: difficulty must be an int from 1 to 5\<close>
  | NoVowelWords                \<comment> \<open>RuntimeError: No words with vowels in this difficulty bucket\<close>
  | AllMutationsValid           \<comment> \<open>RuntimeError: Failed to generate an unsolvable puzzle\<close>
  | AssertionError
  | EmptySequence               \<comment> \<open>ValueError: \<^verbatim>\<open>min\<close> or \<^verbatim>\<open>max\<close> of an empty sequence\<close>
  | IndexError                  \<comment> \<open>\<^verbatim>\<open>choice\<close> from an empty sequence\<close>
  | KeyError
  | ZeroDivisionError

record state =
  ANAGRAM_MAP :: "(string \<rightharpoonup> string list) option"
  BUCKET_WORDS :: "(int \<rightharpoonup> string list) option"
  MIN_LEN :: "int option"
  MAX_LEN :: "int option"

definition initial_state :: state where
  \<comment> \<open>the four globals as the module defines them\<close>
  "initial_state = \<lparr>ANAGRAM_MAP = None, BUCKET_WORDS = None, MIN_LEN = None, MAX_LEN = None\<rparr>"

section \<open>Signature and dictionary loader\<close>

definition signature :: "string \<Rightarrow> string" where
  "signature s = sort s"

text \<open>
  The dictionary file is the list of the lines that iterating the open file yields,
  or \<^term>\<open>None\<close> when \<^verbatim>\<open>DICTIONARY_PATH\<close> does not exist. A function that reads or writes
  the globals takes the state and returns its result, an error or a value, together with
  the state it leaves: an exception does not undo an assignment made before it.
\<close>

fun load_lines :: "string list \<Rightarrow> string list \<Rightarrow> string list" where
  "load_lines words [] = words"
| "load_lines words (line # rest) =
     (let w = strip line
      in if w = [] then load_lines words rest
         else load_lines (words @ [lower w]) rest)"

definition load_words :: "string list option \<Rightarrow> error + string list" where
  "load_words file =
     (case file of
        None \<Rightarrow> Inl FileNotFoundError
      | Some lines \<Rightarrow>
          (let words = load_lines [] lines
           in if words = [] then Inl DictionaryEmpty else Inr words))"

section \<open>Difficulty bucketing\<close>

definition difficulty_for_length :: "state \<Rightarrow> int \<Rightarrow> error + int" where
  "difficulty_for_length st len =
     (case (MIN_LEN st, MAX_LEN st) of
        (Some mn, Some mx) \<Rightarrow>
          if mx = mn then Inr 3
          else (let span = (mx - mn) + 1
                in if span = 0 then Inl ZeroDivisionError
                   else (let idx = ((len - mn) * 5) div span
                         in Inr (max 1 (min 5 (idx + 1)))))
      | _ \<Rightarrow> Inl NotInitialized)"

definition spec_difficulty :: "int \<Rightarrow> int \<Rightarrow> int \<Rightarrow> int" where
  \<comment> \<open>the specification's formula: 3 when the range is a single length, otherwise
     \<open>clamp(floor((L - minLen) * 5 / span) + 1, 1, 5)\<close> with \<open>span = maxLen - minLen + 1\<close>\<close>
  "spec_difficulty minLen maxLen L =
     (if maxLen = minLen then 3
      else (let span = maxLen - minLen + 1;
                v = \<lfloor>(of_int ((L - minLen) * 5) :: real) / of_int span\<rfloor> + 1
            in if v < 1 then 1 else if 5 < v then 5 else v))"

definition min_len :: "string list \<Rightarrow> error + int" where
  \<comment> \<open>\<^verbatim>\<open>min(len(w) for w in words)\<close>\<close>
  "min_len words =
     (case words of
        [] \<Rightarrow> Inl EmptySequence
      | w # ws \<Rightarrow> Inr (fold (\<lambda>x m. if int (length x) < m then int (length x) else m) ws (int (length w))))"

definition max_len :: "string list \<Rightarrow> error + int" where
  \<comment> \<open>\<^verbatim>\<open>max(len(w) for w in words)\<close>\<close>
  "max_len words =
     (case words of
        [] \<Rightarrow> Inl EmptySequence
      | w # ws \<Rightarrow> Inr (fold (\<lambda>x m. if m < int (length x) then int (length x) else m) ws (int (length w))))"

definition append_to :: "('k \<rightharpoonup> 'v list) \<Rightarrow> 'k \<Rightarrow> 'v \<Rightarrow> ('k \<rightharpoonup> 'v list)" where
  \<comment> \<open>\<^verbatim>\<open>d[k].append(v)\<close> on a \<^verbatim>\<open>defaultdict(list)\<close>\<close>
  "append_to d k v = d(k \<mapsto> (case d k of None \<Rightarrow> [] | Some vs \<Rightarrow> vs) @ [v])"

definition truthy :: "('k \<rightharpoonup> 'v list) \<Rightarrow> 'k \<Rightarrow> bool" where
  \<comment> \<open>the truth value of \<^verbatim>\<open>d.get(k)\<close>: the key is there and its list is not empty\<close>
  "truthy d k = (case d k of None \<Rightarrow> False | Some vs \<Rightarrow> vs \<noteq> [])"

fun index_words ::
  "state \<Rightarrow> (string \<rightharpoonup> string list) \<Rightarrow> (int \<rightharpoonup> string list) \<Rightarrow> string list \<Rightarrow>
   error + (string \<rightharpoonup> string list) \<times> (int \<rightharpoonup> string list)" where
  "index_words st anagram_map bucket_words [] = Inr (anagram_map, bucket_words)"
| "index_words st anagram_map bucket_words (w # ws) =
     (let sig = signature w;
          anagram_map' = append_to anagram_map sig w
      in case difficulty_for_length st (int (length w)) of
           Inl e \<Rightarrow> Inl e
         | Inr d \<Rightarrow> index_words st anagram_map' (append_to bucket_words d w) ws)"

fun find_nearest :: "(int \<rightharpoonup> string list) \<Rightarrow> int \<Rightarrow> int list \<Rightarrow> int option" where
  "find_nearest bucket_words d [] = None"
| "find_nearest bucket_words d (delta # deltas) =
     (if truthy bucket_words (d - delta) then Some (d - delta)
      else if truthy bucket_words (d + delta) then Some (d + delta)
      else find_nearest bucket_words d deltas)"

fun fill_buckets :: "(int \<rightharpoonup> string list) \<Rightarrow> int list \<Rightarrow> error + (int \<rightharpoonup> string list)" where
  "fill_buckets bucket_words [] = Inr bucket_words"
| "fill_buckets bucket_words (d # ds) =
     (if truthy bucket_words d then fill_buckets bucket_words ds
      else (case find_nearest bucket_words d [1, 2, 3, 4] of
              None \<Rightarrow> Inl NoWordsForBuckets
            | Some nearest \<Rightarrow>
                fill_buckets
                  (bucket_words(d \<mapsto> (case bucket_words nearest of None \<Rightarrow> [] | Some vs \<Rightarrow> vs)))
                  ds))"

definition init :: "string list option \<Rightarrow> state \<Rightarrow> (error + unit) \<times> state" where
  \<comment> \<open>the result, and the globals as the call leaves them (also when it raises)\<close>
  "init file st =
     (if ANAGRAM_MAP st \<noteq> None \<and> BUCKET_WORDS st \<noteq> None then (Inr (), st)
      else (case load_words file of
              Inl e \<Rightarrow> (Inl e, st)
            | Inr words \<Rightarrow>
               (case min_len words of
                  Inl e \<Rightarrow> (Inl e, st)
                | Inr mn \<Rightarrow>
                   (let st1 = st\<lparr>MIN_LEN := Some mn\<rparr>
                    in case max_len words of
                         Inl e \<Rightarrow> (Inl e, st1)
                       | Inr mx \<Rightarrow>
                          (let st2 = st1\<lparr>MAX_LEN := Some mx\<rparr>
                           in case index_words st2 Map.empty Map.empty words of
                                Inl e \<Rightarrow> (Inl e, st2)
                              | Inr (anagram_map, bucket_words) \<Rightarrow>
                                 (case fill_buckets bucket_words [1, 2, 3, 4, 5] of
                                    Inl e \<Rightarrow> (Inl e, st2)
                                  | Inr bucket_words' \<Rightarrow>
                                      (Inr (), st2\<lparr>ANAGRAM_MAP := Some anagram_map,
                                                   BUCKET_WORDS := Some bucket_words'\<rparr>)))))))"

text \<open>
  The specification's description of what initialisation builds: the Signature Index
  maps a signature to the dictionary words that have it, in file order with duplicates
  kept; the buckets group words by difficulty; fallback-fill copies into each empty bucket
  \<open>d\<close> (for \<open>d\<close> from 1 to 5, in order) the first non-empty bucket among
  \<open>d - 1, d + 1, d - 2, d + 2, d - 3, d + 3, d - 4, d + 4\<close>, and fails when there is none.
\<close>

definition spec_signature_index :: "string list \<Rightarrow> (string \<rightharpoonup> string list)" where
  "spec_signature_index words =
     (\<lambda>sig. let cls = filter (\<lambda>w. signature w = sig) words
            in if cls = [] then None else Some cls)"

definition spec_buckets :: "int \<Rightarrow> int \<Rightarrow> string list \<Rightarrow> (int \<rightharpoonup> string list)" where
  "spec_buckets minLen maxLen words =
     (\<lambda>d. let b = filter (\<lambda>w. spec_difficulty minLen maxLen (int (length w)) = d) words
          in if b = [] then None else Some b)"

definition spec_fill_bucket :: "(int \<rightharpoonup> string list) \<Rightarrow> int \<Rightarrow> (int \<rightharpoonup> string list) option" where
  "spec_fill_bucket b d =
     (if truthy b d then Some b
      else (case List.find (truthy b) (concat (map (\<lambda>delta. [d - delta, d + delta]) [1, 2, 3, 4])) of
              None \<Rightarrow> None
            | Some k \<Rightarrow> Some (b(d := b k))))"

definition spec_fallback_fill :: "(int \<rightharpoonup> string list) \<Rightarrow> (int \<rightharpoonup> string list) option" where
  "spec_fallback_fill b =
     fold (\<lambda>d r. case r of None \<Rightarrow> None | Some b' \<Rightarrow> spec_fill_bucket b' d) [1, 2, 3, 4, 5] (Some b)"

section \<open>Query API\<close>

definition validate_input :: "string \<Rightarrow> string \<Rightarrow> error + string" where
  "validate_input s name =
     (let normalized = lower (strip s)
      in if normalized = [] then Inl (EmptyInput name)
         else if \<not> isalpha normalized then Inl (NonAlphabetic name)
         else Inr normalized)"

definition solve :: "string list option \<Rightarrow> state \<Rightarrow> string \<Rightarrow> (error + string list) \<times> state" where
  "solve file st puzzle =
     (case init file st of
        (Inl e, st') \<Rightarrow> (Inl e, st')
      | (Inr u, st') \<Rightarrow>
          (case ANAGRAM_MAP st' of
             None \<Rightarrow> (Inl AssertionError, st')
           | Some anagram_map \<Rightarrow>
               (case validate_input puzzle ''puzzle'' of
                  Inl e \<Rightarrow> (Inl e, st')
                | Inr puzzle_norm \<Rightarrow>
                    (let sig = signature puzzle_norm
                     in (Inr (case anagram_map sig of None \<Rightarrow> [] | Some ws \<Rightarrow> ws), st')))))"

definition verify :: "string list option \<Rightarrow> state \<Rightarrow> string \<Rightarrow> string \<Rightarrow> (error + bool) \<times> state" where
  "verify file st puzzle answer =
     (case init file st of
        (Inl e, st') \<Rightarrow> (Inl e, st')
      | (Inr u, st') \<Rightarrow>
          (case ANAGRAM_MAP st' of
             None \<Rightarrow> (Inl AssertionError, st')
           | Some anagram_map \<Rightarrow>
               (case validate_input puzzle ''puzzle'' of
                  Inl e \<Rightarrow> (Inl e, st')
                | Inr puzzle_norm \<Rightarrow>
                    (case validate_input answer ''answer'' of
                       Inl e \<Rightarrow> (Inl e, st')
                     | Inr answer_norm \<Rightarrow>
                         (let puzzle_sig = signature puzzle_norm;
                              answer_sig = signature answer_norm
                          in if puzzle_sig \<noteq> answer_sig then (Inr False, st')
                             else (Inr (answer_norm \<in> set (case anagram_map puzzle_sig of
                                                            None \<Rightarrow> [] | Some ws \<Rightarrow> ws)), st'))))))"

section \<open>Puzzle generator\<close>

text \<open>
  The generator draws from \<^verbatim>\<open>random\<close>. The outcome of each draw is an input of the model:
  for every list it may be given, what \<^verbatim>\<open>shuffle\<close> leaves in it, and what \<^verbatim>\<open>choice\<close> picks
  from it. \<^verbatim>\<open>shuffle\<close> leaves a permutation of the list and \<^verbatim>\<open>choice\<close> picks one of its
  elements; \<open>valid_random\<close> says so, and the theorems about the generator hold for every
  outcome that satisfies it. For such an outcome the shuffled \<open>indices\<close> are a permutation of
  \<open>0, ..., n - 1\<close>, so every \<open>indices ! i\<close> and \<open>letters ! idx\<close> below reads inside its list,
  as the Python does.
\<close>

record random =
  shuffle_letters :: "string \<Rightarrow> string"            \<comment> \<open>\<^verbatim>\<open>shuffle(letters)\<close>\<close>
  shuffle_indices :: "nat list \<Rightarrow> nat list"        \<comment> \<open>\<^verbatim>\<open>shuffle(indices)\<close>\<close>
  shuffle_words :: "string list \<Rightarrow> string list"    \<comment> \<open>\<^verbatim>\<open>shuffle(shuffled_words)\<close>\<close>
  choice_word :: "string list \<Rightarrow> string"           \<comment> \<open>\<^verbatim>\<open>choice(words)\<close>\<close>
  choice_difficulty :: int                         \<comment> \<open>\<^verbatim>\<open>choice((1, 2, 3, 4, 5))\<close>\<close>

definition valid_random :: "random \<Rightarrow> bool" where
  "valid_random r =
     ((\<forall>s. mset (shuffle_letters r s) = mset s) \<and>
      (\<forall>ns. mset (shuffle_indices r ns) = mset ns) \<and>
      (\<forall>ws. mset (shuffle_words r ws) = mset ws) \<and>
      (\<forall>ws. ws \<noteq> [] \<longrightarrow> choice_word r ws \<in> set ws) \<and>
      choice_difficulty r \<in> {1, 2, 3, 4, 5})"

fun scan_inner :: "string \<Rightarrow> nat list \<Rightarrow> nat \<Rightarrow> nat list \<Rightarrow> string option" where
  \<comment> \<open>the loop over \<open>j\<close>; \<open>Some\<close> is the early return\<close>
  "scan_inner letters indices idx1 [] = None"
| "scan_inner letters indices idx1 (j # js) =
     (let idx2 = indices ! j
      in if letters ! idx1 \<noteq> letters ! idx2
         then Some (letters[idx1 := letters ! idx2, idx2 := letters ! idx1])
         else scan_inner letters indices idx1 js)"

fun scan_pairs :: "string \<Rightarrow> nat list \<Rightarrow> nat \<Rightarrow> nat list \<Rightarrow> string option" where
  \<comment> \<open>the loop over \<open>i\<close>\<close>
  "scan_pairs letters indices n [] = None"
| "scan_pairs letters indices n (i # is) =
     (let idx1 = indices ! i
      in case scan_inner letters indices idx1 [i + 1..<n] of
           Some swapped \<Rightarrow> Some swapped
         | None \<Rightarrow> scan_pairs letters indices n is)"

definition shuffle_not_identity :: "random \<Rightarrow> string \<Rightarrow> string" where
  "shuffle_not_identity r word =
     (let letters = shuffle_letters r word;
          candidate = letters
      in if candidate \<noteq> word then candidate
         else (let n = length letters;
                   indices = shuffle_indices r [0..<n]
               in case scan_pairs letters indices n [0..<n - 1] of
                    Some swapped \<Rightarrow> swapped
                  | None \<Rightarrow> candidate))"

definition single_vowel_mutations :: "string \<Rightarrow> string list" where
  \<comment> \<open>the strings the generator yields, in the order it yields them\<close>
  "single_vowel_mutations word =
     (let letters = word;
          vowel_positions = filter (\<lambda>i. letters ! i \<in> VOWELS) [0..<length letters]
      in concat (map (\<lambda>pos. map (\<lambda>v. letters[pos := v])
                                (filter (\<lambda>v. v \<noteq> letters ! pos) ''aeiou''))
                     vowel_positions))"

fun try_mutations :: "(string \<rightharpoonup> string list) \<Rightarrow> string list \<Rightarrow> string option" where
  "try_mutations anagram_map [] = None"
| "try_mutations anagram_map (mutated # rest) =
     (let sig = signature mutated
      in if anagram_map sig = None then Some mutated
         else try_mutations anagram_map rest)"

fun try_words :: "(string \<rightharpoonup> string list) \<Rightarrow> string list \<Rightarrow> string option" where
  "try_words anagram_map [] = None"
| "try_words anagram_map (base # rest) =
     (case try_mutations anagram_map (single_vowel_mutations base) of
        Some mutated \<Rightarrow> Some mutated
      | None \<Rightarrow> try_words anagram_map rest)"

definition generate_unsolvable_from_words :: "random \<Rightarrow> state \<Rightarrow> string list \<Rightarrow> error + string" where
  "generate_unsolvable_from_words r st words =
     (case ANAGRAM_MAP st of
        None \<Rightarrow> Inl AssertionError
      | Some anagram_map \<Rightarrow>
          (let words_with_vowels = filter (\<lambda>w. list_ex (\<lambda>ch. ch \<in> VOWELS) w) words
           in if words_with_vowels = [] then Inl NoVowelWords
              else (let shuffled_words = shuffle_words r words_with_vowels
                    in case try_words anagram_map shuffled_words of
                         Some mutated \<Rightarrow> Inr (shuffle_not_identity r mutated)
                       | None \<Rightarrow> Inl AllMutationsValid)))"

definition generate_puzzle ::
  "random \<Rightarrow> string list option \<Rightarrow> state \<Rightarrow> int option \<Rightarrow> bool \<Rightarrow> (error + string) \<times> state" where
  "generate_puzzle r file st difficulty unsolvable =
     (case init file st of
        (Inl e, st') \<Rightarrow> (Inl e, st')
      | (Inr u, st') \<Rightarrow>
          (case BUCKET_WORDS st' of
             None \<Rightarrow> (Inl AssertionError, st')
           | Some bucket_words \<Rightarrow>
               (let d = (case difficulty of None \<Rightarrow> choice_difficulty r | Some d \<Rightarrow> d)
                in if d \<notin> {1, 2, 3, 4, 5} then (Inl BadDifficulty, st')
                   else (case bucket_words d of
                           None \<Rightarrow> (Inl KeyError, st')
                         | Some words \<Rightarrow>
                             if \<not> unsolvable
                             then (if words = [] then (Inl IndexError, st')
                                   else (let base = choice_word r words
                                         in (Inr (shuffle_not_identity r base), st')))
                             else (generate_unsolvable_from_words r st' words, st')))))"

text \<open>
  An outcome of the random draws for the examples below: every \<^verbatim>\<open>shuffle\<close> leaves its list
  reversed, and \<^verbatim>\<open>choice\<close> picks the first word and the difficulty 3.
\<close>

definition r_rev :: random where
  "r_rev = \<lparr>shuffle_letters = rev, shuffle_indices = rev, shuffle_words = rev,
            choice_word = hd, choice_difficulty = 3\<rparr>"

section \<open>Difficulty for a length\<close>

lemma spec_difficulty_div:
  assumes "mn < mx"
  shows "spec_difficulty mn mx L = max 1 (min 5 (((L - mn) * 5) div (mx - mn + 1) + 1))"
proof -
  have fl: "\<lfloor>(of_int ((L - mn) * 5) :: real) / of_int (mx - mn + 1)\<rfloor> = ((L - mn) * 5) div (mx - mn + 1)"
    by (rule floor_divide_of_int_eq)
  have "spec_difficulty mn mx L =
     (let v = ((L - mn) * 5) div (mx - mn + 1) + 1 in if v < 1 then 1 else if 5 < v then 5 else v)"
    using assms unfolding spec_difficulty_def Let_def fl by simp
  then show ?thesis by (simp add: Let_def max_def min_def)
qed

lemma difficulty_for_length_eq:
  assumes "MIN_LEN st = Some mn" "MAX_LEN st = Some mx" "mn \<le> mx"
  shows "difficulty_for_length st L = Inr (spec_difficulty mn mx L)"
proof (cases "mx = mn")
  case True
  then show ?thesis using assms by (simp add: difficulty_for_length_def spec_difficulty_def)
next
  case False
  with assms have lt: "mn < mx" by simp
  show ?thesis using assms False lt
    by (simp add: difficulty_for_length_def spec_difficulty_div Let_def)
qed

lemma spec_difficulty_range: "1 \<le> spec_difficulty mn mx L \<and> spec_difficulty mn mx L \<le> 5"
  by (simp add: spec_difficulty_def Let_def)

lemma spec_difficulty_mono:
  assumes "mn \<le> mx" "L1 \<le> L2"
  shows "spec_difficulty mn mx L1 \<le> spec_difficulty mn mx L2"
proof (cases "mx = mn")
  case True
  then show ?thesis by (simp add: spec_difficulty_def)
next
  case False
  with assms have lt: "mn < mx" by simp
  have "((L1 - mn) * 5) div (mx - mn + 1) \<le> ((L2 - mn) * 5) div (mx - mn + 1)"
    using assms lt by (intro zdiv_mono1) auto
  then show ?thesis using lt
    by (simp add: spec_difficulty_div max_def min_def)
qed

text \<open>
  C7. Once the globals hold a length range \<open>minLen \<le> maxLen\<close>, the difficulty of a
  length is the specification's formula, it lies between 1 and 5, and it is monotone:
  a smaller length never gets a larger difficulty.
\<close>

theorem difficulty_for_length_spec:
  assumes "MIN_LEN st = Some mn" and "MAX_LEN st = Some mx" and "mn \<le> mx"
  shows "difficulty_for_length st L = Inr (spec_difficulty mn mx L) \<and>
         1 \<le> spec_difficulty mn mx L \<and> spec_difficulty mn mx L \<le> 5 \<and>
         (\<forall>L1 L2. L1 < L2 \<longrightarrow>
            (\<exists>d1 d2. difficulty_for_length st L1 = Inr d1 \<and>
                     difficulty_for_length st L2 = Inr d2 \<and> d1 \<le> d2))"
  using assms spec_difficulty_range [of mn mx L] spec_difficulty_mono [of mn mx]
  by (simp add: difficulty_for_length_eq)

theorem difficulty_for_length_spec_witness:
  "MIN_LEN (initial_state\<lparr>MIN_LEN := Some 2, MAX_LEN := Some 15\<rparr>) = Some 2 \<and>
   MAX_LEN (initial_state\<lparr>MIN_LEN := Some 2, MAX_LEN := Some 15\<rparr>) = Some 15 \<and>
   (2 :: int) \<le> 15 \<and>
   difficulty_for_length (initial_state\<lparr>MIN_LEN := Some 2, MAX_LEN := Some 15\<rparr>) 7 = Inr 2 \<and>
   spec_difficulty 2 15 7 = 2 \<and>
   difficulty_for_length (initial_state\<lparr>MIN_LEN := Some 2, MAX_LEN := Some 15\<rparr>) 15 = Inr 5"
  using difficulty_for_length_spec [of "initial_state\<lparr>MIN_LEN := Some 2, MAX_LEN := Some 15\<rparr>" 2 15 7]
  by (simp add: difficulty_for_length_def initial_state_def)

section \<open>Characters, strip and lower\<close>

lemma of_char_lower_char:
  "(of_char (lower_char c) :: nat) =
     (let n = of_char c in if (65 \<le> n \<and> n \<le> 90) \<or> (192 \<le> n \<and> n \<le> 214) \<or> (216 \<le> n \<and> n \<le> 222)
        then n + 32 else n)"
  by (auto simp add: lower_char_def Let_def)

lemma isalpha_char_not_isspace: "isalpha_char c \<Longrightarrow> \<not> isspace c"
  by (auto simp add: isalpha_char_def isspace_def Let_def)

lemma lower_char_idem: "lower_char (lower_char c) = lower_char c"
  by (rule of_char_eqI [where ?'a = nat]) (auto simp add: of_char_lower_char Let_def)

lemma isspace_lower_char: "isspace (lower_char c) = isspace c"
  unfolding isspace_def of_char_lower_char by (auto simp add: Let_def)

lemma isalpha_char_lower_char: "isalpha_char (lower_char c) = isalpha_char c"
  unfolding isalpha_char_def of_char_lower_char by (auto simp add: Let_def)

lemma ascii_isalpha_lower: "is_ascii c \<Longrightarrow> isalpha_char (lower_char c) = is_az (lower_char c)"
  unfolding isalpha_char_def is_az_def is_ascii_def of_char_lower_char by (auto simp add: Let_def)

lemma is_az_fixed: "is_az c \<Longrightarrow> lower_char c = c"
  by (auto simp add: is_az_def lower_char_def Let_def)

lemma strip_map: "(\<And>c. isspace (f c) = isspace c) \<Longrightarrow> strip (map f s) = map f (strip s)"
  by (simp add: strip_def dropWhile_map rev_map comp_def)

lemma strip_lower: "strip (lower s) = lower (strip s)"
  unfolding lower_def by (rule strip_map) (rule isspace_lower_char)

lemma rev_dropWhile_rev_Cons:
  "\<not> P a \<Longrightarrow> \<exists>ys. rev (dropWhile P (rev (a # as))) = a # ys"
  by (simp add: dropWhile_append) (metis rev_rev_ident)

lemma dropWhile_rev_dropWhile:
  "dropWhile P (rev (dropWhile P (rev (dropWhile P s)))) = rev (dropWhile P (rev (dropWhile P s)))"
proof (cases "dropWhile P s")
  case Nil
  show ?thesis unfolding Nil by simp
next
  case (Cons a as)
  then have na: "\<not> P a" by (metis hd_dropWhile list.sel(1) list.distinct(1))
  from rev_dropWhile_rev_Cons [of P a as, OF na]
  obtain ys where "rev (dropWhile P (rev (a # as))) = a # ys" by blast
  then show ?thesis unfolding Cons using na by simp
qed

lemma strip_idem: "strip (strip s) = strip s"
  unfolding strip_def
  by (simp add: dropWhile_rev_dropWhile)

section \<open>The dictionary loader\<close>

lemma load_lines_eq:
  "load_lines acc ls = acc @ map (\<lambda>l. lower (strip l)) (filter (\<lambda>l. strip l \<noteq> []) ls)"
  by (induction ls arbitrary: acc) (simp_all add: Let_def)

lemma lower_idem: "lower (lower s) = lower s"
  by (simp add: lower_def lower_char_idem)

lemma lower_Nil_iff: "lower s = [] \<longleftrightarrow> s = []"
  by (simp add: lower_def)

lemma load_words_Some:
  "load_words (Some ls) =
     (let ws = map (\<lambda>l. lower (strip l)) (filter (\<lambda>l. strip l \<noteq> []) ls)
      in if ws = [] then Inl DictionaryEmpty else Inr ws)"
  by (simp add: load_words_def load_lines_eq)

lemma load_words_word:
  assumes "load_words file = Inr words" "w \<in> set words"
  shows "w \<noteq> [] \<and> lower w = w \<and> strip w = w"
proof -
  from assms(1) obtain ls where f: "file = Some ls"
    by (cases "file") (simp_all add: load_words_def)
  with assms(1) have "words = map (\<lambda>l. lower (strip l)) (filter (\<lambda>l. strip l \<noteq> []) ls)"
    by (simp add: load_words_Some Let_def split: if_splits)
  with assms(2) obtain l where l: "w = lower (strip l)" "strip l \<noteq> []" by auto
  then show ?thesis
    by (simp add: lower_idem lower_Nil_iff strip_lower strip_idem)
qed

lemma load_words_nonempty: "load_words file = Inr words \<Longrightarrow> words \<noteq> []"
  by (auto simp add: load_words_def Let_def split: option.splits if_splits)

text \<open>
  C9 (as amended). The loader raises the source-missing error when the file is absent;
  otherwise it strips every line, skips the lines that are blank, lowercases the rest and
  collects them in file order with duplicates kept, raising the empty-source error when
  nothing is left. Every loaded word is non-empty, unchanged by lowercasing and free of
  surrounding whitespace. The loader does not check that a word is alphabetic.
\<close>

theorem load_words_spec:
  "load_words None = Inl FileNotFoundError \<and>
   load_words (Some ls) =
     (let ws = map (\<lambda>l. lower (strip l)) (filter (\<lambda>l. strip l \<noteq> []) ls)
      in if ws = [] then Inl DictionaryEmpty else Inr ws) \<and>
   (load_words file = Inr words \<longrightarrow> (\<forall>w \<in> set words. w \<noteq> [] \<and> lower w = w \<and> strip w = w))"
  using load_words_word [of "file" words]
  by (simp add: load_words_Some) (simp add: load_words_def)

theorem load_words_spec_witness:
  "load_words (Some [''Dog'' @ [CHR 0x0A], [CHR 0x0A], ''  it's '' @ [CHR 0x0A], ''dog'']) =
     Inr [''dog'', ''it's'', ''dog''] \<and>
   list_all (\<lambda>w. w \<noteq> [] \<and> lower w = w \<and> strip w = w) [''dog'', ''it's'', ''dog'']"
proof -
  have h: "load_words (Some [''Dog'' @ [CHR 0x0A], [CHR 0x0A], ''  it's '' @ [CHR 0x0A], ''dog'']) =
     Inr [''dog'', ''it's'', ''dog'']"
    by code_simp
  from load_words_spec [of "[]" "Some [''Dog'' @ [CHR 0x0A], [CHR 0x0A], ''  it's '' @ [CHR 0x0A], ''dog'']"
      "[''dog'', ''it's'', ''dog'']"] h
  have "\<forall>w \<in> set [''dog'', ''it's'', ''dog'']. w \<noteq> [] \<and> lower w = w \<and> strip w = w"
    by blast
  then have "list_all (\<lambda>w. w \<noteq> [] \<and> lower w = w \<and> strip w = w) [''dog'', ''it's'', ''dog'']"
    unfolding list_all_iff .
  with h show ?thesis by (rule conjI)
qed

text \<open>
  A line that holds an apostrophe is loaded as it is: the loaded word is not alphabetic.
\<close>

theorem load_words_alphabetic_counterexample:
  "load_words (Some [''it's'' @ [CHR 0x0A]]) = Inr [''it's''] \<and> \<not> isalpha ''it's''"
  by code_simp

section \<open>Initialisation: index, buckets and fallback-fill\<close>

lemma fold_min_len:
  "fold (\<lambda>x m. if int (length x) < m then int (length x) else m) ws a \<le> a \<and>
   (\<forall>w \<in> set ws. fold (\<lambda>x m. if int (length x) < m then int (length x) else m) ws a \<le> int (length w))"
proof (induction ws arbitrary: a)
  case Nil
  show ?case by simp
next
  case (Cons x xs)
  from Cons [of "if int (length x) < a then int (length x) else a"]
  show ?case by (auto split: if_splits)
qed

lemma fold_max_len:
  "a \<le> fold (\<lambda>x m. if m < int (length x) then int (length x) else m) ws a \<and>
   (\<forall>w \<in> set ws. int (length w) \<le> fold (\<lambda>x m. if m < int (length x) then int (length x) else m) ws a)"
proof (induction ws arbitrary: a)
  case Nil
  show ?case by simp
next
  case (Cons x xs)
  from Cons [of "if a < int (length x) then int (length x) else a"]
  show ?case by (auto split: if_splits)
qed

lemma min_max_len:
  assumes "words \<noteq> []"
  shows "\<exists>mn mx. min_len words = Inr mn \<and> max_len words = Inr mx \<and> mn \<le> mx \<and>
           (\<forall>w \<in> set words. mn \<le> int (length w) \<and> int (length w) \<le> mx)"
proof -
  from assms obtain w ws where w: "words = w # ws" by (cases words) auto
  let ?mn = "fold (\<lambda>x m. if int (length x) < m then int (length x) else m) ws (int (length w))"
  let ?mx = "fold (\<lambda>x m. if m < int (length x) then int (length x) else m) ws (int (length w))"
  have mn: "?mn \<le> int (length w)" "\<forall>x \<in> set ws. ?mn \<le> int (length x)"
    using fold_min_len [of ws "int (length w)"] by blast+
  have mx: "int (length w) \<le> ?mx" "\<forall>x \<in> set ws. int (length x) \<le> ?mx"
    using fold_max_len [of "int (length w)" ws] by blast+
  have "min_len words = Inr ?mn" "max_len words = Inr ?mx"
    unfolding w min_len_def max_len_def by simp_all
  moreover have "?mn \<le> ?mx" using mn(1) mx(1) by (rule order_trans)
  moreover have "\<forall>x \<in> set words. ?mn \<le> int (length x) \<and> int (length x) \<le> ?mx"
    unfolding w using mn mx by simp
  ultimately show ?thesis by blast
qed

lemma append_to_spec_signature_index:
  "append_to (spec_signature_index pre) (signature w) w = spec_signature_index (pre @ [w])"
  by (rule ext) (simp add: append_to_def spec_signature_index_def Let_def)

lemma append_to_spec_buckets:
  "append_to (spec_buckets mn mx pre) (spec_difficulty mn mx (int (length w))) w =
     spec_buckets mn mx (pre @ [w])"
  by (rule ext) (simp add: append_to_def spec_buckets_def Let_def)

lemma index_words_eq:
  assumes "MIN_LEN st = Some mn" "MAX_LEN st = Some mx" "mn \<le> mx"
  shows "index_words st (spec_signature_index pre) (spec_buckets mn mx pre) ws =
           Inr (spec_signature_index (pre @ ws), spec_buckets mn mx (pre @ ws))"
proof (induction ws arbitrary: pre)
  case Nil
  show ?case by simp
next
  case (Cons w ws)
  from Cons [of "pre @ [w]"] show ?case
    by (simp add: Let_def difficulty_for_length_eq [OF assms]
        append_to_spec_signature_index append_to_spec_buckets)
qed

lemma spec_index_Nil: "spec_signature_index [] = Map.empty" "spec_buckets mn mx [] = Map.empty"
  by (simp_all add: spec_signature_index_def spec_buckets_def)

lemma find_nearest_eq:
  "find_nearest b d deltas = List.find (truthy b) (concat (map (\<lambda>delta. [d - delta, d + delta]) deltas))"
  by (induction deltas) simp_all

lemma truthy_Some: "truthy b k \<Longrightarrow> \<exists>vs. b k = Some vs \<and> vs \<noteq> []"
  by (cases "b k") (simp_all add: truthy_def)

lemma fold_fill_None:
  "fold (\<lambda>d r. case r of None \<Rightarrow> None | Some b' \<Rightarrow> spec_fill_bucket b' d) ds None = None"
  by (induction ds) simp_all

lemma find_nearest_truthy: "find_nearest b d deltas = Some k \<Longrightarrow> truthy b k"
  by (induction deltas) (auto split: if_splits)

lemma fill_buckets_eq:
  "fill_buckets b ds =
     (case fold (\<lambda>d r. case r of None \<Rightarrow> None | Some b' \<Rightarrow> spec_fill_bucket b' d) ds (Some b) of
        None \<Rightarrow> Inl NoWordsForBuckets | Some b' \<Rightarrow> Inr b')"
proof (induction ds arbitrary: b)
  case Nil
  show ?case by simp
next
  case (Cons d ds)
  let ?f = "\<lambda>d r. case r of None \<Rightarrow> None | Some b' \<Rightarrow> spec_fill_bucket b' d"
  have fold_step: "fold ?f (d # ds) (Some b) = fold ?f ds (spec_fill_bucket b d)" by simp
  show ?case
  proof (cases "truthy b d")
    case True
    then have "spec_fill_bucket b d = Some b" by (simp add: spec_fill_bucket_def)
    moreover have "fill_buckets b (d # ds) = fill_buckets b ds" using True by simp
    ultimately show ?thesis unfolding fold_step using Cons [of b] by simp
  next
    case False
    have spec: "spec_fill_bucket b d =
        (case find_nearest b d [1, 2, 3, 4] of None \<Rightarrow> None | Some k \<Rightarrow> Some (b(d := b k)))"
      using False unfolding spec_fill_bucket_def find_nearest_eq by simp
    show ?thesis
    proof (cases "find_nearest b d [1, 2, 3, 4]")
      case None
      have "fill_buckets b (d # ds) = Inl NoWordsForBuckets"
        using False None by simp
      moreover have "spec_fill_bucket b d = None" unfolding spec None by simp
      ultimately show ?thesis unfolding fold_step by (simp add: fold_fill_None)
    next
      case (Some k)
      then have "truthy b k" by (rule find_nearest_truthy)
      then obtain vs where vs: "b k = Some vs" using truthy_Some [of b k] by blast
      have A: "fill_buckets b (d # ds) = fill_buckets (b(d \<mapsto> vs)) ds"
        using False Some vs by simp
      have B: "spec_fill_bucket b d = Some (b(d \<mapsto> vs))" unfolding spec Some by (simp add: vs)
      show ?thesis by (simp only: A fold_step B Cons [of "b(d \<mapsto> vs)"])
    qed
  qed
qed

lemma spec_fill_bucket_ok:
  assumes d: "1 \<le> d" "d \<le> 5" and k: "1 \<le> k" "k \<le> 5" "truthy b k"
  shows "\<exists>b'. spec_fill_bucket b d = Some b' \<and> truthy b' d \<and>
              (\<forall>j. truthy b j \<longrightarrow> truthy b' j) \<and>
              (\<forall>j vs. b' j = Some vs \<longrightarrow> (\<exists>j'. b j' = Some vs))"
proof (cases "truthy b d")
  case True
  then show ?thesis by (auto simp add: spec_fill_bucket_def)
next
  case False
  let ?cands = "concat (map (\<lambda>delta. [d - delta, d + delta]) [1, 2, 3, 4 :: int])"
  from False k have "k \<noteq> d" by auto
  with d k have "k = d - 1 \<or> k = d + 1 \<or> k = d - 2 \<or> k = d + 2 \<or> k = d - 3 \<or> k = d + 3 \<or>
      k = d - 4 \<or> k = d + 4" by presburger
  then have "k \<in> set ?cands" by simp
  with k have "List.find (truthy b) ?cands \<noteq> None"
    unfolding find_None_iff by blast
  then obtain k' where k': "List.find (truthy b) ?cands = Some k'" by blast
  then have t: "truthy b k'" by (auto simp add: find_Some_iff simp del: find.simps)
  have "spec_fill_bucket b d = Some (b(d := b k'))"
    using False k' by (simp add: spec_fill_bucket_def del: find.simps)
  moreover have "truthy (b(d := b k')) d" using t by (simp add: truthy_def)
  moreover have "\<forall>j. truthy b j \<longrightarrow> truthy (b(d := b k')) j"
    using False by (auto simp add: truthy_def)
  moreover have "\<forall>j vs. (b(d := b k')) j = Some vs \<longrightarrow> (\<exists>j'. b j' = Some vs)"
    by (auto split: if_splits)
  ultimately show ?thesis by blast
qed

lemma fold_fill_ok:
  assumes "\<forall>d \<in> set ds. 1 \<le> d \<and> d \<le> 5" and "1 \<le> k" "k \<le> 5" "truthy b k"
  shows "\<exists>b'. fold (\<lambda>d r. case r of None \<Rightarrow> None | Some b' \<Rightarrow> spec_fill_bucket b' d) ds (Some b) = Some b' \<and>
              (\<forall>d \<in> set ds. truthy b' d) \<and>
              (\<forall>j. truthy b j \<longrightarrow> truthy b' j) \<and>
              (\<forall>j vs. b' j = Some vs \<longrightarrow> (\<exists>j'. b j' = Some vs))"
  using assms
proof (induction ds arbitrary: b)
  case Nil
  show ?case by auto
next
  case (Cons d ds)
  from Cons.prems have d: "1 \<le> d" "d \<le> 5" by simp_all
  from Cons.prems have ds: "\<forall>d \<in> set ds. 1 \<le> d \<and> d \<le> 5" by simp
  from spec_fill_bucket_ok [OF d Cons.prems(2,3,4)]
  obtain b1 where b1: "spec_fill_bucket b d = Some b1" "truthy b1 d"
      "\<forall>j. truthy b j \<longrightarrow> truthy b1 j" "\<forall>j vs. b1 j = Some vs \<longrightarrow> (\<exists>j'. b j' = Some vs)"
    by blast
  have "truthy b1 k" using b1(3) Cons.prems(4) by blast
  from Cons.IH [OF ds Cons.prems(2,3) this]
  obtain b' where b': "fold (\<lambda>d r. case r of None \<Rightarrow> None | Some b' \<Rightarrow> spec_fill_bucket b' d) ds (Some b1) = Some b'"
      "\<forall>d \<in> set ds. truthy b' d" "\<forall>j. truthy b1 j \<longrightarrow> truthy b' j"
      "\<forall>j vs. b' j = Some vs \<longrightarrow> (\<exists>j'. b1 j' = Some vs)"
    by blast
  have "fold (\<lambda>d r. case r of None \<Rightarrow> None | Some b' \<Rightarrow> spec_fill_bucket b' d) (d # ds) (Some b) = Some b'"
    using b1(1) b'(1) by simp
  moreover have "\<forall>d' \<in> set (d # ds). truthy b' d'" using b1(2) b'(2,3) by simp
  moreover have "\<forall>j. truthy b j \<longrightarrow> truthy b' j" using b1(3) b'(3) by blast
  moreover have "\<forall>j vs. b' j = Some vs \<longrightarrow> (\<exists>j'. b j' = Some vs)" using b1(4) b'(4) by blast
  ultimately show ?case by blast
qed

lemma spec_fallback_fill_ok:
  assumes "1 \<le> k" "k \<le> 5" "truthy b k"
  shows "\<exists>b'. spec_fallback_fill b = Some b' \<and>
              (\<forall>d \<in> {1, 2, 3, 4, 5}. truthy b' d) \<and>
              (\<forall>j vs. b' j = Some vs \<longrightarrow> (\<exists>j'. b j' = Some vs))"
proof -
  have "\<forall>d \<in> set [1, 2, 3, 4, 5 :: int]. 1 \<le> d \<and> d \<le> 5" by simp
  from fold_fill_ok [OF this assms] show ?thesis
    unfolding spec_fallback_fill_def by (simp del: fold_simps) blast
qed

lemma spec_buckets_truthy:
  assumes "w \<in> set words"
  shows "truthy (spec_buckets mn mx words) (spec_difficulty mn mx (int (length w)))"
proof -
  have "filter (\<lambda>x. spec_difficulty mn mx (int (length x)) = spec_difficulty mn mx (int (length w))) words \<noteq> []"
    using assms by (auto simp add: filter_empty_conv)
  then show ?thesis by (simp add: truthy_def spec_buckets_def Let_def)
qed

lemma spec_buckets_subset: "spec_buckets mn mx words d = Some ws \<Longrightarrow> set ws \<subseteq> set words"
  by (auto simp add: spec_buckets_def Let_def split: if_splits)

lemma init_builds:
  assumes lw: "load_words file = Inr words"
    and nb: "ANAGRAM_MAP st = None \<or> BUCKET_WORDS st = None"
  shows "\<exists>mn mx bw.
           init file st = (Inr (), st\<lparr>MIN_LEN := Some mn, MAX_LEN := Some mx,
                                     ANAGRAM_MAP := Some (spec_signature_index words),
                                     BUCKET_WORDS := Some bw\<rparr>) \<and>
           mn \<le> mx \<and> (\<forall>w \<in> set words. mn \<le> int (length w) \<and> int (length w) \<le> mx) \<and>
           spec_fallback_fill (spec_buckets mn mx words) = Some bw \<and>
           (\<forall>d \<in> {1, 2, 3, 4, 5}. truthy bw d) \<and>
           (\<forall>d ws. bw d = Some ws \<longrightarrow> set ws \<subseteq> set words)"
proof -
  from lw have ne: "words \<noteq> []" by (rule load_words_nonempty)
  from min_max_len [OF ne] obtain mn mx where
    m: "min_len words = Inr mn" "max_len words = Inr mx" "mn \<le> mx"
       "\<forall>w \<in> set words. mn \<le> int (length w) \<and> int (length w) \<le> mx"
    by blast
  let ?st2 = "st\<lparr>MIN_LEN := Some mn, MAX_LEN := Some mx\<rparr>"
  have "MIN_LEN ?st2 = Some mn" "MAX_LEN ?st2 = Some mx" by simp_all
  from index_words_eq [OF this m(3), of "[]" words]
  have iw: "index_words ?st2 Map.empty Map.empty words =
              Inr (spec_signature_index words, spec_buckets mn mx words)"
    by (simp add: spec_index_Nil)
  from ne obtain w where w: "w \<in> set words" by (cases words) auto
  let ?k = "spec_difficulty mn mx (int (length w))"
  have "1 \<le> ?k" "?k \<le> 5" using spec_difficulty_range [of mn mx "int (length w)"] by simp_all
  from spec_fallback_fill_ok [OF this spec_buckets_truthy [OF w]]
  obtain bw where bw: "spec_fallback_fill (spec_buckets mn mx words) = Some bw"
      "\<forall>d \<in> {1, 2, 3, 4, 5}. truthy bw d"
      "\<forall>j vs. bw j = Some vs \<longrightarrow> (\<exists>j'. spec_buckets mn mx words j' = Some vs)"
    by blast
  have fb: "fill_buckets (spec_buckets mn mx words) [1, 2, 3, 4, 5] = Inr bw"
    using bw(1) unfolding fill_buckets_eq spec_fallback_fill_def by simp
  have "init file st = (Inr (), st\<lparr>MIN_LEN := Some mn, MAX_LEN := Some mx,
                                     ANAGRAM_MAP := Some (spec_signature_index words),
                                     BUCKET_WORDS := Some bw\<rparr>)"
    using nb unfolding init_def by (auto simp add: lw m(1,2) iw fb Let_def simp del: fill_buckets.simps)
  moreover have "\<forall>d ws. bw d = Some ws \<longrightarrow> set ws \<subseteq> set words"
    using bw(3) spec_buckets_subset by blast
  ultimately show ?thesis using m(3,4) bw(1,2) by blast
qed

lemma init_done:
  "ANAGRAM_MAP st \<noteq> None \<Longrightarrow> BUCKET_WORDS st \<noteq> None \<Longrightarrow> init file st = (Inr (), st)"
  by (simp add: init_def)

lemma init_ready:
  assumes lw: "load_words file = Inr words"
    and st: "st = initial_state \<or> init file initial_state = (Inr (), st)"
  shows "\<exists>st' bw. init file st = (Inr (), st') \<and>
           ANAGRAM_MAP st' = Some (spec_signature_index words) \<and>
           BUCKET_WORDS st' = Some bw \<and>
           (\<forall>d \<in> {1, 2, 3, 4, 5}. truthy bw d) \<and>
           (\<forall>d ws. bw d = Some ws \<longrightarrow> set ws \<subseteq> set words) \<and>
           init file st' = (Inr (), st')"
proof -
  have i0: "ANAGRAM_MAP initial_state = None \<or> BUCKET_WORDS initial_state = None"
    by (simp add: initial_state_def)
  from init_builds [OF lw i0] obtain mn mx bw where
    b: "init file initial_state = (Inr (), initial_state\<lparr>MIN_LEN := Some mn, MAX_LEN := Some mx,
                                     ANAGRAM_MAP := Some (spec_signature_index words),
                                     BUCKET_WORDS := Some bw\<rparr>)"
       "\<forall>d \<in> {1, 2, 3, 4, 5}. truthy bw d"
       "\<forall>d ws. bw d = Some ws \<longrightarrow> set ws \<subseteq> set words"
    by blast
  let ?st' = "initial_state\<lparr>MIN_LEN := Some mn, MAX_LEN := Some mx,
                                     ANAGRAM_MAP := Some (spec_signature_index words),
                                     BUCKET_WORDS := Some bw\<rparr>"
  have d: "init file ?st' = (Inr (), ?st')" by (rule init_done) simp_all
  from st show ?thesis
  proof
    assume "st = initial_state"
    then show ?thesis using b d by auto
  next
    assume "init file initial_state = (Inr (), st)"
    with b(1) have "st = ?st'" by simp
    then show ?thesis using b d by auto
  qed
qed

section \<open>Validation, solve and verify\<close>

lemma validate_input_eq:
  "validate_input s name =
     (if strip s = [] then Inl (EmptyInput name)
      else if \<not> list_all isalpha_char (lower (strip s)) then Inl (NonAlphabetic name)
      else Inr (lower (strip s)))"
  by (simp add: validate_input_def Let_def isalpha_def lower_Nil_iff)

lemma set_strip: "set (strip s) \<subseteq> set s"
  unfolding strip_def by (auto dest!: set_dropWhileD)

lemma ascii_alpha_az:
  assumes "list_all is_ascii s"
  shows "list_all isalpha_char (lower (strip s)) = list_all is_az (lower (strip s))"
proof -
  have "\<forall>c \<in> set (strip s). is_ascii c" using assms set_strip [of s] by (auto simp add: list_all_iff)
  then show ?thesis by (simp add: lower_def list_all_iff ascii_isalpha_lower)
qed

lemma solve_ready:
  assumes "init file st = (Inr (), st')" "ANAGRAM_MAP st' = Some am"
  shows "solve file st puzzle =
     (case validate_input puzzle ''puzzle'' of Inl e \<Rightarrow> (Inl e, st')
      | Inr pn \<Rightarrow> (Inr (case am (signature pn) of None \<Rightarrow> [] | Some ws \<Rightarrow> ws), st'))"
  using assms by (simp add: solve_def Let_def split: sum.splits)

lemma verify_ready:
  assumes "init file st = (Inr (), st')" "ANAGRAM_MAP st' = Some am"
  shows "verify file st puzzle answer =
     (case validate_input puzzle ''puzzle'' of Inl e \<Rightarrow> (Inl e, st')
      | Inr pn \<Rightarrow>
         (case validate_input answer ''answer'' of Inl e \<Rightarrow> (Inl e, st')
          | Inr an \<Rightarrow> (Inr (signature pn = signature an \<and>
                an \<in> set (case am (signature pn) of None \<Rightarrow> [] | Some ws \<Rightarrow> ws)), st')))"
  using assms by (simp add: verify_def Let_def split: sum.splits)

lemma class_of_spec_index:
  "(case spec_signature_index words sig of None \<Rightarrow> [] | Some ws \<Rightarrow> ws) =
     filter (\<lambda>w. signature w = sig) words"
  by (simp add: spec_signature_index_def Let_def)

lemma solve_eq:
  assumes lw: "load_words file = Inr words"
    and st: "st = initial_state \<or> init file initial_state = (Inr (), st)"
  shows "fst (solve file st puzzle) =
     (case validate_input puzzle ''puzzle'' of Inl e \<Rightarrow> Inl e
      | Inr pn \<Rightarrow> Inr (filter (\<lambda>w. signature w = signature pn) words))"
proof -
  from init_ready [OF lw st] obtain st' where
    "init file st = (Inr (), st')" "ANAGRAM_MAP st' = Some (spec_signature_index words)" by blast
  from solve_ready [OF this] show ?thesis
    by (simp add: class_of_spec_index split: sum.splits)
qed

lemma verify_eq:
  assumes lw: "load_words file = Inr words"
    and st: "st = initial_state \<or> init file initial_state = (Inr (), st)"
  shows "fst (verify file st puzzle answer) =
     (case validate_input puzzle ''puzzle'' of Inl e \<Rightarrow> Inl e
      | Inr pn \<Rightarrow>
         (case validate_input answer ''answer'' of Inl e \<Rightarrow> Inl e
          | Inr an \<Rightarrow> Inr (signature pn = signature an \<and>
                an \<in> set (filter (\<lambda>w. signature w = signature pn) words))))"
proof -
  from init_ready [OF lw st] obtain st' where
    "init file st = (Inr (), st')" "ANAGRAM_MAP st' = Some (spec_signature_index words)" by blast
  from verify_ready [OF this] show ?thesis
    by (simp add: class_of_spec_index split: sum.splits)
qed

lemma alpha_word_validates:
  assumes "w \<noteq> []" "lower w = w" "list_all isalpha_char w" "mset q = mset w"
  shows "validate_input q name = Inr q"
proof -
  from assms(4) have sq: "set q = set w" by (rule mset_eq_setD)
  from assms(4) assms(1) have qne: "q \<noteq> []" by auto
  have al: "\<forall>c \<in> set q. isalpha_char c" using assms(3) sq by (simp add: list_all_iff)
  then have nsp: "\<forall>c \<in> set q. \<not> isspace c" using isalpha_char_not_isspace by blast
  have "dropWhile isspace q = q" using nsp qne by (cases q) auto
  moreover have "dropWhile isspace (rev q) = rev q" using nsp qne by (cases "rev q") auto
  ultimately have sq': "strip q = q" by (simp add: strip_def)
  have "map lower_char w = map (\<lambda>c. c) w" using assms(2) by (simp add: lower_def)
  then have "\<forall>c \<in> set w. lower_char c = c" by (simp only: map_eq_conv)
  then have "\<forall>c \<in> set q. lower_char c = c" using sq by simp
  then have "lower q = q" unfolding lower_def by (intro map_idI) simp
  then show ?thesis using sq' qne al by (simp add: validate_input_eq list_all_iff)
qed

lemma signature_mset: "mset q = mset w \<Longrightarrow> signature q = signature w"
  unfolding signature_def by (metis properties_for_sort sorted_sort mset_sort)

text \<open>
  C1 (as amended). With the dictionary loaded, on the first call or a later one, solve of
  a puzzle that passes validation returns exactly the dictionary words whose signature is
  that of the trimmed, lowercased puzzle, in file order with duplicates kept, and the empty
  sequence when no word has that signature. For every dictionary word \<open>w\<close> that is alphabetic
  and every permutation \<open>q\<close> of \<open>w\<close>, solve of \<open>q\<close> contains \<open>w\<close>.
\<close>

theorem solve_spec:
  assumes "load_words file = Inr words"
    and "st = initial_state \<or> init file initial_state = (Inr (), st)"
  shows "(validate_input puzzle ''puzzle'' = Inr pn \<longrightarrow>
            pn = lower (strip puzzle) \<and>
            fst (solve file st puzzle) = Inr (filter (\<lambda>w. signature w = signature pn) words) \<and>
            ((\<forall>w \<in> set words. signature w \<noteq> signature pn) \<longrightarrow> fst (solve file st puzzle) = Inr [])) \<and>
         (w \<in> set words \<and> list_all isalpha_char w \<and> mset q = mset w \<longrightarrow>
            (\<exists>ws. fst (solve file st q) = Inr ws \<and> w \<in> set ws))"
proof -
  have a: "fst (solve file st puzzle) = Inr (filter (\<lambda>w. signature w = signature pn) words)"
    and b: "pn = lower (strip puzzle)"
    if "validate_input puzzle ''puzzle'' = Inr pn"
    using that
    by (simp_all add: solve_eq [OF assms] validate_input_eq split: if_splits)
  have c: "\<exists>ws. fst (solve file st q) = Inr ws \<and> w \<in> set ws"
    if w: "w \<in> set words" "list_all isalpha_char w" "mset q = mset w"
  proof -
    from load_words_word [OF assms(1) w(1)] have "w \<noteq> []" "lower w = w" by simp_all
    from alpha_word_validates [OF this w(2,3)]
    have "validate_input q ''puzzle'' = Inr q" .
    then have "fst (solve file st q) = Inr (filter (\<lambda>x. signature x = signature q) words)"
      by (simp add: solve_eq [OF assms])
    moreover have "w \<in> set (filter (\<lambda>x. signature x = signature q) words)"
      using w(1) signature_mset [OF w(3)] by simp
    ultimately show ?thesis by blast
  qed
  show ?thesis using a b c by (simp add: filter_empty_conv)
qed

theorem solve_spec_witness:
  "load_words (Some [''Dog'', ''cat'', ''god'', ''dog'']) = Inr [''dog'', ''cat'', ''god'', ''dog''] \<and>
   validate_input ''  DGO '' ''puzzle'' = Inr ''dgo'' \<and>
   fst (solve (Some [''Dog'', ''cat'', ''god'', ''dog'']) initial_state ''  DGO '') = Inr [''dog'', ''god'', ''dog''] \<and>
   ''god'' \<in> set [''dog'', ''cat'', ''god'', ''dog''] \<and> list_all isalpha_char ''god'' \<and>
   mset ''odg'' = mset ''god'' \<and>
   (\<exists>ws. fst (solve (Some [''Dog'', ''cat'', ''god'', ''dog'']) initial_state ''odg'') = Inr ws \<and> ''god'' \<in> set ws)"
proof -
  have h1: "load_words (Some [''Dog'', ''cat'', ''god'', ''dog'']) = Inr [''dog'', ''cat'', ''god'', ''dog'']"
    by code_simp
  have h2: "initial_state = initial_state \<or>
      init (Some [''Dog'', ''cat'', ''god'', ''dog'']) initial_state = (Inr (), initial_state)" by simp
  have h3: "validate_input ''  DGO '' ''puzzle'' = Inr ''dgo''" by code_simp
  have h4: "''god'' \<in> set [''dog'', ''cat'', ''god'', ''dog''] \<and> list_all isalpha_char ''god'' \<and>
      mset ''odg'' = mset ''god''" by code_simp
  have h5: "filter (\<lambda>w. signature w = signature ''dgo'') [''dog'', ''cat'', ''god'', ''dog''] = [''dog'', ''god'', ''dog'']"
    by code_simp
  note r = solve_spec [OF h1 h2, of "''  DGO ''" "''dgo''" "''god''" "''odg''"]
  from r h3 have "fst (solve (Some [''Dog'', ''cat'', ''god'', ''dog'']) initial_state ''  DGO '') =
      Inr (filter (\<lambda>w. signature w = signature ''dgo'') [''dog'', ''cat'', ''god'', ''dog''])"
    by blast
  then have p1: "fst (solve (Some [''Dog'', ''cat'', ''god'', ''dog'']) initial_state ''  DGO '') =
      Inr [''dog'', ''god'', ''dog'']" unfolding h5 .
  from r h4 have p2: "\<exists>ws. fst (solve (Some [''Dog'', ''cat'', ''god'', ''dog'']) initial_state ''odg'') = Inr ws \<and>
      ''god'' \<in> set ws" by blast
  from h1 h3 p1 h4 p2 show ?thesis by blast
qed

text \<open>
  A dictionary line with a space inside is a dictionary word that solve never returns:
  the permutation with the space in front is trimmed to a string of another signature.
\<close>

theorem solve_permutation_counterexample:
  "load_words (Some [''no one'']) = Inr [''no one''] \<and>
   mset '' noone'' = mset ''no one'' \<and>
   validate_input '' noone'' ''puzzle'' = Inr ''noone'' \<and>
   fst (solve (Some [''no one'']) initial_state '' noone'') = Inr []"
  by code_simp

text \<open>
  C3. With the dictionary loaded and both arguments valid, verify returns false, without
  an error, when the signatures of the two normalized strings differ, and otherwise
  returns whether the normalized answer is in the Signature Index class of that
  signature, which is what solve returns for the puzzle.
\<close>

theorem verify_spec:
  assumes "load_words file = Inr words"
    and "st = initial_state \<or> init file initial_state = (Inr (), st)"
    and "validate_input puzzle ''puzzle'' = Inr pn"
    and "validate_input answer ''answer'' = Inr an"
  shows "(signature pn \<noteq> signature an \<longrightarrow> fst (verify file st puzzle answer) = Inr False) \<and>
         (signature pn = signature an \<longrightarrow>
            fst (verify file st puzzle answer) =
              Inr (an \<in> set (filter (\<lambda>w. signature w = signature pn) words))) \<and>
         (\<exists>ws. fst (solve file st puzzle) = Inr ws \<and>
            (signature pn = signature an \<longrightarrow>
               fst (verify file st puzzle answer) = Inr (an \<in> set ws)))"
proof -
  have v: "fst (verify file st puzzle answer) =
      Inr (signature pn = signature an \<and> an \<in> set (filter (\<lambda>w. signature w = signature pn) words))"
    using assms(3,4) by (simp add: verify_eq [OF assms(1,2)])
  have s: "fst (solve file st puzzle) = Inr (filter (\<lambda>w. signature w = signature pn) words)"
    using assms(3) by (simp add: solve_eq [OF assms(1,2)])
  show ?thesis unfolding v s by simp
qed

theorem verify_spec_witness:
  "load_words (Some [''dog'', ''cat'', ''god'']) = Inr [''dog'', ''cat'', ''god''] \<and>
   validate_input ''dgo'' ''puzzle'' = Inr ''dgo'' \<and>
   validate_input '' God'' ''answer'' = Inr ''god'' \<and>
   signature ''dgo'' = signature ''god'' \<and>
   fst (verify (Some [''dog'', ''cat'', ''god'']) initial_state ''dgo'' '' God'') = Inr True"
proof -
  have h1: "load_words (Some [''dog'', ''cat'', ''god'']) = Inr [''dog'', ''cat'', ''god'']"
    by code_simp
  have h2: "initial_state = initial_state \<or>
      init (Some [''dog'', ''cat'', ''god'']) initial_state = (Inr (), initial_state)" by simp
  have h3: "validate_input ''dgo'' ''puzzle'' = Inr ''dgo''" by code_simp
  have h4: "validate_input '' God'' ''answer'' = Inr ''god''" by code_simp
  have h5: "signature ''dgo'' = signature ''god''" by code_simp
  have h6: "(''god'' \<in> set (filter (\<lambda>w. signature w = signature ''dgo'') [''dog'', ''cat'', ''god''])) = True"
    by code_simp
  from verify_spec [OF h1 h2 h3 h4] h5
  have "fst (verify (Some [''dog'', ''cat'', ''god'']) initial_state ''dgo'' '' God'') =
      Inr (''god'' \<in> set (filter (\<lambda>w. signature w = signature ''dgo'') [''dog'', ''cat'', ''god'']))"
    by blast
  then have "fst (verify (Some [''dog'', ''cat'', ''god'']) initial_state ''dgo'' '' God'') = Inr True"
    unfolding h6 .
  with h1 h3 h4 h5 show ?thesis by blast
qed

text \<open>
  C5 (as amended). An argument that is empty after trimming raises the empty-input
  error; one that after trimming and lowercasing holds a character that is not
  alphabetic in the sense of \<^verbatim>\<open>str.isalpha\<close> raises the non-alphabetic-input error; every
  other argument is accepted in its trimmed, lowercased form. On an ASCII argument the
  alphabetic characters after lowercasing are exactly the letters a to z. solve and
  verify raise the error of their first invalid argument.
\<close>

theorem validate_input_spec:
  "validate_input s name =
     (if strip s = [] then Inl (EmptyInput name)
      else if \<not> list_all isalpha_char (lower (strip s)) then Inl (NonAlphabetic name)
      else Inr (lower (strip s))) \<and>
   (list_all is_ascii s \<longrightarrow>
      list_all isalpha_char (lower (strip s)) = list_all is_az (lower (strip s))) \<and>
   (load_words file = Inr words \<and> (st = initial_state \<or> init file initial_state = (Inr (), st)) \<longrightarrow>
      (validate_input puzzle ''puzzle'' = Inl e \<longrightarrow>
         fst (solve file st puzzle) = Inl e \<and> fst (verify file st puzzle answer) = Inl e) \<and>
      (validate_input puzzle ''puzzle'' = Inr pn \<and> validate_input answer ''answer'' = Inl e \<longrightarrow>
         fst (verify file st puzzle answer) = Inl e))"
proof -
  have "fst (solve file st puzzle) = Inl e \<and> fst (verify file st puzzle answer) = Inl e"
    if "load_words file = Inr words" "st = initial_state \<or> init file initial_state = (Inr (), st)"
       "validate_input puzzle ''puzzle'' = Inl e"
    using that(3) by (simp add: solve_eq [OF that(1,2)] verify_eq [OF that(1,2)])
  moreover have "fst (verify file st puzzle answer) = Inl e"
    if "load_words file = Inr words" "st = initial_state \<or> init file initial_state = (Inr (), st)"
       "validate_input puzzle ''puzzle'' = Inr pn" "validate_input answer ''answer'' = Inl e"
    using that(3,4) by (simp add: verify_eq [OF that(1,2)])
  ultimately show ?thesis
    using validate_input_eq [of s name] ascii_alpha_az [of s] by blast
qed

theorem validate_input_spec_witness:
  "validate_input ''  '' ''puzzle'' = Inl (EmptyInput ''puzzle'') \<and>
   validate_input ''d-o-g'' ''puzzle'' = Inl (NonAlphabetic ''puzzle'') \<and>
   validate_input '' DoG '' ''puzzle'' = Inr ''dog'' \<and>
   list_all is_ascii ''d-o-g'' \<and> \<not> list_all is_az (lower (strip ''d-o-g'')) \<and>
   load_words (Some [''dog'']) = Inr [''dog''] \<and>
   fst (solve (Some [''dog'']) initial_state ''d-o-g'') = Inl (NonAlphabetic ''puzzle'') \<and>
   fst (verify (Some [''dog'']) initial_state ''dog'' []) = Inl (EmptyInput ''answer'')"
proof -
  have h1: "load_words (Some [''dog'']) = Inr [''dog'']" by code_simp
  have h2: "initial_state = initial_state \<or> init (Some [''dog'']) initial_state = (Inr (), initial_state)"
    by simp
  have h3: "validate_input ''d-o-g'' ''puzzle'' = Inl (NonAlphabetic ''puzzle'')" by code_simp
  have h4: "validate_input ''dog'' ''puzzle'' = Inr ''dog''" by code_simp
  have h5: "validate_input [] ''answer'' = Inl (EmptyInput ''answer'')" by code_simp
  have h6: "list_all is_ascii ''d-o-g''" by code_simp
  have h7: "\<not> list_all isalpha_char (lower (strip ''d-o-g''))" by code_simp
  have e1: "validate_input ''  '' ''puzzle'' = Inl (EmptyInput ''puzzle'')" by code_simp
  have e2: "validate_input '' DoG '' ''puzzle'' = Inr ''dog''" by code_simp
  from validate_input_spec [of "''d-o-g''" "''puzzle''" "Some [''dog'']" "[''dog'']" initial_state
      "''d-o-g''" "NonAlphabetic ''puzzle''" "[]" "[]"] h1 h2 h3 h6 h7
  have a: "fst (solve (Some [''dog'']) initial_state ''d-o-g'') = Inl (NonAlphabetic ''puzzle'')"
    and b: "\<not> list_all is_az (lower (strip ''d-o-g''))" by blast+
  from validate_input_spec [of "[]" "[]" "Some [''dog'']" "[''dog'']" initial_state
      "''dog''" "EmptyInput ''answer''" "[]" "''dog''"] h1 h2 h4 h5
  have c: "fst (verify (Some [''dog'']) initial_state ''dog'' []) = Inl (EmptyInput ''answer'')" by blast
  from e1 h3 e2 h6 b h1 a c show ?thesis by blast
qed

text \<open>
  The letter e with an acute accent (code point 0xE9) is alphabetic for \<^verbatim>\<open>str.isalpha\<close> and
  is not a letter a to z: the argument is accepted, and solve returns the empty sequence.
\<close>

theorem validate_input_non_az_counterexample:
  "\<not> is_az (CHR 0xE9) \<and>
   validate_input [CHR 0xE9] ''puzzle'' = Inr [CHR 0xE9] \<and>
   fst (solve (Some [''dog'']) initial_state [CHR 0xE9]) = Inr []"
  by code_simp

section \<open>Buckets after initialisation\<close>

lemma fill_buckets_spec:
  "fill_buckets b [1, 2, 3, 4, 5] =
     (case spec_fallback_fill b of None \<Rightarrow> Inl NoWordsForBuckets | Some b' \<Rightarrow> Inr b')"
  unfolding spec_fallback_fill_def by (rule fill_buckets_eq)

text \<open>
  C6. Initialisation from a file that loads (the word list is then non-empty) succeeds,
  so the "cannot construct buckets" branch is not taken, and leaves buckets in which
  every difficulty 1 to 5 has a non-empty list. The buckets are the fallback-fill of the
  buckets of the length rule, and the code's fill is the specification's: every empty
  bucket, for \<open>d\<close> from 1 to 5 in order, gets the first non-empty bucket among
  \<open>d - 1, d + 1, d - 2, d + 2, d - 3, d + 3, d - 4, d + 4\<close>.
\<close>

theorem init_buckets_nonempty:
  assumes "load_words file = Inr words"
    and "ANAGRAM_MAP st = None \<or> BUCKET_WORDS st = None"
  shows "words \<noteq> [] \<and>
         (\<exists>st' mn mx bw.
            init file st = (Inr (), st') \<and>
            MIN_LEN st' = Some mn \<and> MAX_LEN st' = Some mx \<and> BUCKET_WORDS st' = Some bw \<and>
            fill_buckets (spec_buckets mn mx words) [1, 2, 3, 4, 5] = Inr bw \<and>
            spec_fallback_fill (spec_buckets mn mx words) = Some bw \<and>
            list_all (\<lambda>d. \<exists>ws. bw d = Some ws \<and> ws \<noteq> []) [1, 2, 3, 4, 5]) \<and>
         fill_buckets b [1, 2, 3, 4, 5] =
           (case spec_fallback_fill b of None \<Rightarrow> Inl NoWordsForBuckets | Some b' \<Rightarrow> Inr b')"
proof -
  from init_builds [OF assms] obtain mn mx bw where
    i: "init file st = (Inr (), st\<lparr>MIN_LEN := Some mn, MAX_LEN := Some mx,
                                     ANAGRAM_MAP := Some (spec_signature_index words),
                                     BUCKET_WORDS := Some bw\<rparr>)"
    and f: "spec_fallback_fill (spec_buckets mn mx words) = Some bw"
    and t: "\<forall>d \<in> {1, 2, 3, 4, 5}. truthy bw d"
    by blast
  have fb: "fill_buckets (spec_buckets mn mx words) [1, 2, 3, 4, 5] = Inr bw"
    by (simp only: fill_buckets_spec f option.case)
  have ne: "list_all (\<lambda>d. \<exists>ws. bw d = Some ws \<and> ws \<noteq> []) [1, 2, 3, 4, 5]"
    using t truthy_Some [of bw] by (simp add: list_all_iff)
  let ?st' = "st\<lparr>MIN_LEN := Some mn, MAX_LEN := Some mx,
                 ANAGRAM_MAP := Some (spec_signature_index words), BUCKET_WORDS := Some bw\<rparr>"
  have "MIN_LEN ?st' = Some mn" "MAX_LEN ?st' = Some mx" "BUCKET_WORDS ?st' = Some bw" by simp_all
  with i fb f ne have "\<exists>st' mn mx bw.
            init file st = (Inr (), st') \<and>
            MIN_LEN st' = Some mn \<and> MAX_LEN st' = Some mx \<and> BUCKET_WORDS st' = Some bw \<and>
            fill_buckets (spec_buckets mn mx words) [1, 2, 3, 4, 5] = Inr bw \<and>
            spec_fallback_fill (spec_buckets mn mx words) = Some bw \<and>
            list_all (\<lambda>d. \<exists>ws. bw d = Some ws \<and> ws \<noteq> []) [1, 2, 3, 4, 5]" by blast
  then show ?thesis using load_words_nonempty [OF assms(1)] fill_buckets_spec [of b] by blast
qed

theorem init_buckets_nonempty_witness:
  "load_words (Some [''a'', ''abcdefghi'']) = Inr [''a'', ''abcdefghi''] \<and>
   ANAGRAM_MAP initial_state = None \<and>
   (\<exists>st' bw. init (Some [''a'', ''abcdefghi'']) initial_state = (Inr (), st') \<and>
      BUCKET_WORDS st' = Some bw \<and>
      list_all (\<lambda>d. \<exists>ws. bw d = Some ws \<and> ws \<noteq> []) [1, 2, 3, 4, 5]) \<and>
   map (\<lambda>d. case BUCKET_WORDS (snd (init (Some [''a'', ''abcdefghi'']) initial_state)) of
               None \<Rightarrow> None | Some bw \<Rightarrow> bw d) [1, 2, 3, 4, 5] =
     [Some [''a''], Some [''a''], Some [''a''], Some [''a''], Some [''abcdefghi'']]"
proof -
  have h1: "load_words (Some [''a'', ''abcdefghi'']) = Inr [''a'', ''abcdefghi'']" by code_simp
  have h2: "ANAGRAM_MAP initial_state = None" by (simp add: initial_state_def)
  then have h2': "ANAGRAM_MAP initial_state = None \<or> BUCKET_WORDS initial_state = None" ..
  have h3: "map (\<lambda>d. case BUCKET_WORDS (snd (init (Some [''a'', ''abcdefghi'']) initial_state)) of
               None \<Rightarrow> None | Some bw \<Rightarrow> bw d) [1, 2, 3, 4, 5] =
     [Some [''a''], Some [''a''], Some [''a''], Some [''a''], Some [''abcdefghi'']]" by code_simp
  from init_buckets_nonempty [OF h1 h2']
  have "\<exists>st' bw. init (Some [''a'', ''abcdefghi'']) initial_state = (Inr (), st') \<and>
      BUCKET_WORDS st' = Some bw \<and>
      list_all (\<lambda>d. \<exists>ws. bw d = Some ws \<and> ws \<noteq> []) [1, 2, 3, 4, 5]" by blast
  with h1 h2 h3 show ?thesis by blast
qed

section \<open>Initialisation and errors\<close>

lemma load_words_error: "load_words file = Inl e \<Longrightarrow> e = FileNotFoundError \<or> e = DictionaryEmpty"
  by (auto simp add: load_words_def Let_def split: option.splits if_splits)

lemma init_load_error:
  assumes "load_words file = Inl e" "ANAGRAM_MAP st = None \<or> BUCKET_WORDS st = None"
  shows "init file st = (Inl e, st)"
  using assms by (auto simp add: init_def)

text \<open>
  C10. When loading the dictionary fails (the file is missing or has no non-blank line)
  and the index is not built yet, \<open>init\<close> raises the loader's error and leaves the globals
  as they were, so from the module's initial state both the anagram map and the buckets
  stay unset; solve, verify and generate_puzzle raise the same error and leave the same
  state, and a later call with a file that loads builds the whole index. Once both
  structures are set, \<open>init\<close> returns at once and changes nothing.
\<close>

theorem init_atomic:
  assumes "load_words file = Inl e"
    and "ANAGRAM_MAP st = None \<or> BUCKET_WORDS st = None"
  shows "(e = FileNotFoundError \<or> e = DictionaryEmpty) \<and>
         init file st = (Inl e, st) \<and>
         solve file st puzzle = (Inl e, st) \<and>
         verify file st puzzle answer = (Inl e, st) \<and>
         generate_puzzle r file st difficulty unsolvable = (Inl e, st) \<and>
         init file initial_state = (Inl e, initial_state) \<and>
         ANAGRAM_MAP (snd (init file initial_state)) = None \<and>
         BUCKET_WORDS (snd (init file initial_state)) = None \<and>
         (load_words file' = Inr words \<longrightarrow>
            (\<exists>st' bw. init file' (snd (init file initial_state)) = (Inr (), st') \<and>
               ANAGRAM_MAP st' = Some (spec_signature_index words) \<and> BUCKET_WORDS st' = Some bw)) \<and>
         (ANAGRAM_MAP st2 \<noteq> None \<and> BUCKET_WORDS st2 \<noteq> None \<longrightarrow> init file2 st2 = (Inr (), st2))"
proof -
  have i0: "ANAGRAM_MAP initial_state = None \<or> BUCKET_WORDS initial_state = None"
    by (simp add: initial_state_def)
  have i: "init file st = (Inl e, st)" by (rule init_load_error [OF assms])
  have ii: "init file initial_state = (Inl e, initial_state)" by (rule init_load_error [OF assms(1) i0])
  have n: "ANAGRAM_MAP (snd (init file initial_state)) = None"
      "BUCKET_WORDS (snd (init file initial_state)) = None"
    unfolding ii by (simp_all add: initial_state_def)
  have s: "solve file st puzzle = (Inl e, st)" by (simp add: solve_def i)
  have v: "verify file st puzzle answer = (Inl e, st)" by (simp add: verify_def i)
  have g: "generate_puzzle r file st difficulty unsolvable = (Inl e, st)"
    by (simp add: generate_puzzle_def i)
  have re: "\<exists>st' bw. init file' (snd (init file initial_state)) = (Inr (), st') \<and>
               ANAGRAM_MAP st' = Some (spec_signature_index words) \<and> BUCKET_WORDS st' = Some bw"
    if "load_words file' = Inr words"
    using init_ready [OF that, of initial_state] unfolding ii by auto
  have d: "init file2 st2 = (Inr (), st2)" if "ANAGRAM_MAP st2 \<noteq> None \<and> BUCKET_WORDS st2 \<noteq> None"
    using that by (simp add: init_done)
  from load_words_error [OF assms(1)] i s v g ii n re d show ?thesis by blast
qed

theorem init_atomic_witness:
  "load_words (Some [''  '']) = Inl DictionaryEmpty \<and>
   load_words None = Inl FileNotFoundError \<and>
   ANAGRAM_MAP initial_state = None \<and>
   init (Some [''  '']) initial_state = (Inl DictionaryEmpty, initial_state) \<and>
   solve None initial_state ''dgo'' = (Inl FileNotFoundError, initial_state) \<and>
   verify None initial_state ''dgo'' ''dog'' = (Inl FileNotFoundError, initial_state) \<and>
   generate_puzzle r_rev None initial_state (Some 3) False = (Inl FileNotFoundError, initial_state) \<and>
   load_words (Some [''dog'']) = Inr [''dog''] \<and>
   (\<exists>st' bw. init (Some [''dog'']) (snd (init None initial_state)) = (Inr (), st') \<and>
      ANAGRAM_MAP st' = Some (spec_signature_index [''dog'']) \<and> BUCKET_WORDS st' = Some bw) \<and>
   ANAGRAM_MAP (snd (init (Some [''dog'']) initial_state)) \<noteq> None \<and>
   BUCKET_WORDS (snd (init (Some [''dog'']) initial_state)) \<noteq> None \<and>
   init None (snd (init (Some [''dog'']) initial_state)) = (Inr (), snd (init (Some [''dog'']) initial_state))"
proof -
  have h1: "load_words (Some [''  '']) = Inl DictionaryEmpty" by code_simp
  have h1': "load_words None = Inl FileNotFoundError" by code_simp
  have h2: "ANAGRAM_MAP initial_state = None" by (simp add: initial_state_def)
  then have h2': "ANAGRAM_MAP initial_state = None \<or> BUCKET_WORDS initial_state = None" ..
  have h3: "load_words (Some [''dog'']) = Inr [''dog'']" by code_simp
  have h4: "ANAGRAM_MAP (snd (init (Some [''dog'']) initial_state)) \<noteq> None"
    "BUCKET_WORDS (snd (init (Some [''dog'']) initial_state)) \<noteq> None" by code_simp+
  note a = init_atomic [OF h1 h2', of "[]" "[]" r_rev None False "Some [''dog'']" "[''dog'']"
      "snd (init (Some [''dog'']) initial_state)" None]
  note b = init_atomic [OF h1' h2', of "''dgo''" "''dog''" r_rev "Some 3" False "Some [''dog'']" "[''dog'']"
      "snd (init (Some [''dog'']) initial_state)" None]
  from a have a1: "init (Some [''  '']) initial_state = (Inl DictionaryEmpty, initial_state)" by blast
  from b have b1: "solve None initial_state ''dgo'' = (Inl FileNotFoundError, initial_state)"
    and b2: "verify None initial_state ''dgo'' ''dog'' = (Inl FileNotFoundError, initial_state)"
    and b3: "generate_puzzle r_rev None initial_state (Some 3) False = (Inl FileNotFoundError, initial_state)"
    by blast+
  from b h3 have b4: "\<exists>st' bw. init (Some [''dog'']) (snd (init None initial_state)) = (Inr (), st') \<and>
      ANAGRAM_MAP st' = Some (spec_signature_index [''dog'']) \<and> BUCKET_WORDS st' = Some bw" by blast
  from b h4 have b5: "init None (snd (init (Some [''dog'']) initial_state)) =
      (Inr (), snd (init (Some [''dog'']) initial_state))" by blast
  from h1 h1' h2 a1 b1 b2 b3 h3 b4 h4 b5 show ?thesis by blast
qed

section \<open>Shuffle-Not-Identity\<close>

lemma scan_inner_None:
  "scan_inner l ix i1 js = None \<longleftrightarrow> (\<forall>j \<in> set js. l ! i1 = l ! (ix ! j))"
  by (induction js) (simp_all add: Let_def)

lemma scan_inner_Some:
  "scan_inner l ix i1 js = Some r \<Longrightarrow>
     \<exists>j \<in> set js. l ! i1 \<noteq> l ! (ix ! j) \<and> r = l[i1 := l ! (ix ! j), ix ! j := l ! i1]"
  by (induction js) (auto simp add: Let_def split: if_splits)

lemma scan_pairs_None:
  "scan_pairs l ix n is = None \<longleftrightarrow>
     (\<forall>i \<in> set is. \<forall>j \<in> {i + 1..<n}. l ! (ix ! i) = l ! (ix ! j))"
proof (induction "is")
  case Nil
  show ?case by simp
next
  case (Cons i "is")
  show ?case
  proof (cases "scan_inner l ix (ix ! i) [i + 1..<n]")
    case None
    then have "\<forall>j \<in> {i + 1..<n}. l ! (ix ! i) = l ! (ix ! j)"
      unfolding scan_inner_None by simp
    with None Cons show ?thesis by (simp add: Let_def)
  next
    case (Some r)
    then have "scan_inner l ix (ix ! i) [i + 1..<n] \<noteq> None" by simp
    then have "\<not> (\<forall>j \<in> {i + 1..<n}. l ! (ix ! i) = l ! (ix ! j))"
      unfolding scan_inner_None by simp
    with Some show ?thesis by (simp add: Let_def)
  qed
qed

lemma scan_pairs_Some:
  "scan_pairs l ix n is = Some r \<Longrightarrow>
     \<exists>i \<in> set is. \<exists>j \<in> {i + 1..<n}. l ! (ix ! i) \<noteq> l ! (ix ! j) \<and>
        r = l[ix ! i := l ! (ix ! j), ix ! j := l ! (ix ! i)]"
proof (induction "is")
  case Nil
  then show ?case by simp
next
  case (Cons i "is")
  show ?case
  proof (cases "scan_inner l ix (ix ! i) [i + 1..<n]")
    case None
    with Cons show ?thesis by (simp add: Let_def)
  next
    case (Some r')
    with Cons.prems have "r' = r" by (simp add: Let_def)
    with scan_inner_Some [OF Some] show ?thesis by auto
  qed
qed

lemma swap_differs:
  assumes "i1 < length l" "i2 < length l" "l ! i1 \<noteq> l ! i2"
  shows "l[i1 := l ! i2, i2 := l ! i1] \<noteq> l"
proof
  assume "l[i1 := l ! i2, i2 := l ! i1] = l"
  then have "l[i1 := l ! i2, i2 := l ! i1] ! i2 = l ! i2" by simp
  with assms show False by simp
qed

lemma mset_eq_all_same:
  assumes "mset xs = mset ys" "\<forall>a \<in> set ys. \<forall>b \<in> set ys. a = b"
  shows "xs = ys"
proof (rule nth_equalityI)
  show len: "length xs = length ys" using assms(1) by (rule mset_eq_length)
  fix i assume i: "i < length xs"
  have "set xs = set ys" using assms(1) by (rule mset_eq_setD)
  with i len have "xs ! i \<in> set ys" "ys ! i \<in> set ys" by (auto simp add: set_conv_nth)
  with assms(2) show "xs ! i = ys ! i" by blast
qed

lemma perm_indices:
  assumes "mset ix = mset [0..<n]"
  shows "length ix = n" "\<And>i. i < n \<Longrightarrow> ix ! i < n" "\<And>p. p < n \<Longrightarrow> \<exists>i < n. ix ! i = p"
proof -
  show len: "length ix = n" using mset_eq_length [OF assms] by simp
  have s: "set ix = {0..<n}" using mset_eq_setD [OF assms] by simp
  show "ix ! i < n" if "i < n" for i
    using that len s nth_mem [of i ix] by auto
  show "\<exists>i < n. ix ! i = p" if "p < n" for p
  proof -
    from that s have "p \<in> set ix" by simp
    then show ?thesis unfolding in_set_conv_nth len by blast
  qed
qed

lemma shuffle_not_identity_cases:
  assumes "mset (shuffle_letters r s) = mset s"
    and "mset (shuffle_indices r [0..<length s]) = mset [0..<length s]"
  shows "mset (shuffle_not_identity r s) = mset s"
    and "\<exists>a \<in> set s. \<exists>b \<in> set s. a \<noteq> b \<Longrightarrow> shuffle_not_identity r s \<noteq> s"
proof -
  let ?n = "length s"
  let ?ix = "shuffle_indices r [0..<?n]"
  note ix = perm_indices [OF assms(2)]
  show "mset (shuffle_not_identity r s) = mset s"
  proof (cases "shuffle_letters r s = s")
    case False
    then show ?thesis using assms(1) by (simp add: shuffle_not_identity_def Let_def)
  next
    case True
    show ?thesis
    proof (cases "scan_pairs s ?ix ?n [0..<?n - 1]")
      case None
      then show ?thesis using True by (simp add: shuffle_not_identity_def Let_def)
    next
      case (Some sw)
      from scan_pairs_Some [OF Some] obtain i j where
        ij: "i < ?n - 1" "i + 1 \<le> j" "j < ?n" "sw = s[?ix ! i := s ! (?ix ! j), ?ix ! j := s ! (?ix ! i)]"
        by auto
      then have "?ix ! i < ?n" "?ix ! j < ?n" using ix(2) by simp_all
      then have "mset sw = mset s" unfolding ij(4) by (simp add: mset_swap)
      then show ?thesis using True Some by (simp add: shuffle_not_identity_def Let_def)
    qed
  qed
  show "shuffle_not_identity r s \<noteq> s" if "\<exists>a \<in> set s. \<exists>b \<in> set s. a \<noteq> b"
  proof (cases "shuffle_letters r s = s")
    case False
    then show ?thesis by (simp add: shuffle_not_identity_def Let_def)
  next
    case True
    from that obtain p q where pq: "p < ?n" "q < ?n" "s ! p \<noteq> s ! q"
      by (auto simp add: in_set_conv_nth)
    from ix(3) [OF pq(1)] ix(3) [OF pq(2)] obtain i j where
      ij: "i < ?n" "?ix ! i = p" "j < ?n" "?ix ! j = q" by blast
    with pq(3) have "i \<noteq> j" by auto
    have "scan_pairs s ?ix ?n [0..<?n - 1] \<noteq> None"
    proof (cases "i < j")
      case True
      then have "i \<in> set [0..<?n - 1]" "j \<in> {i + 1..<?n}" using ij by auto
      then show ?thesis unfolding scan_pairs_None using pq(3) ij(2,4) by blast
    next
      case False
      with \<open>i \<noteq> j\<close> have "j < i" by simp
      then have "j \<in> set [0..<?n - 1]" "i \<in> {j + 1..<?n}" using ij by auto
      moreover have "s ! (?ix ! j) \<noteq> s ! (?ix ! i)" using pq(3) ij(2,4) by simp
      ultimately show ?thesis unfolding scan_pairs_None by blast
    qed
    then obtain sw where Some: "scan_pairs s ?ix ?n [0..<?n - 1] = Some sw" by blast
    from scan_pairs_Some [OF Some] obtain i' j' where
      ij': "i' < ?n - 1" "i' + 1 \<le> j'" "j' < ?n" "s ! (?ix ! i') \<noteq> s ! (?ix ! j')"
        "sw = s[?ix ! i' := s ! (?ix ! j'), ?ix ! j' := s ! (?ix ! i')]"
      by auto
    then have "?ix ! i' < ?n" "?ix ! j' < ?n" using ix(2) by simp_all
    from swap_differs [OF this ij'(4)] have "sw \<noteq> s" unfolding ij'(5) .
    then show ?thesis using True Some by (simp add: shuffle_not_identity_def Let_def)
  qed
qed

lemma shuffle_not_identity_mset: "valid_random r \<Longrightarrow> mset (shuffle_not_identity r s) = mset s"
  by (rule shuffle_not_identity_cases(1)) (simp_all add: valid_random_def)

lemma valid_random_r_rev: "valid_random r_rev"
  by (auto simp add: valid_random_def r_rev_def)

text \<open>
  C4. For every outcome of the random draws, the result of Shuffle-Not-Identity is a
  permutation of its input; it differs from the input when the input holds two distinct
  characters, and equals the input when it does not (all characters identical, or length
  at most 1).
\<close>

theorem shuffle_not_identity_spec:
  assumes "valid_random r"
  shows "mset (shuffle_not_identity r s) = mset s \<and>
         ((\<exists>a \<in> set s. \<exists>b \<in> set s. a \<noteq> b) \<longrightarrow> shuffle_not_identity r s \<noteq> s) \<and>
         ((\<forall>a \<in> set s. \<forall>b \<in> set s. a = b) \<longrightarrow> shuffle_not_identity r s = s)"
proof -
  from assms have v: "mset (shuffle_letters r s) = mset s"
      "mset (shuffle_indices r [0..<length s]) = mset [0..<length s]"
    by (simp_all add: valid_random_def)
  note c = shuffle_not_identity_cases [OF v]
  have "shuffle_not_identity r s = s" if "\<forall>a \<in> set s. \<forall>b \<in> set s. a = b"
    using c(1) that by (rule mset_eq_all_same)
  with c show ?thesis by blast
qed

theorem shuffle_not_identity_spec_witness:
  "valid_random r_rev \<and>
   shuffle_not_identity r_rev ''abba'' = ''abab'' \<and> mset ''abab'' = mset ''abba'' \<and>
   ''abab'' \<noteq> ''abba'' \<and>
   shuffle_not_identity r_rev ''dog'' = ''god'' \<and>
   shuffle_not_identity r_rev ''aaa'' = ''aaa'' \<and>
   shuffle_not_identity r_rev ''a'' = ''a'' \<and>
   shuffle_not_identity r_rev [] = []"
proof -
  have v: "valid_random r_rev" by (rule valid_random_r_rev)
  have e1: "shuffle_not_identity r_rev ''abba'' = ''abab''" by code_simp
  have e2: "shuffle_not_identity r_rev ''dog'' = ''god''" by code_simp
  have h1: "\<exists>a \<in> set ''abba''. \<exists>b \<in> set ''abba''. a \<noteq> b" by code_simp
  have h2: "\<forall>a \<in> set ''aaa''. \<forall>b \<in> set ''aaa''. a = b" by simp
  have h3: "\<forall>a \<in> set ''a''. \<forall>b \<in> set ''a''. a = b" by simp
  have h4: "\<forall>a \<in> set ''''. \<forall>b \<in> set ''''. a = (b :: char)" by simp
  from shuffle_not_identity_spec [OF v, of "''abba''"] h1
  have a: "mset (shuffle_not_identity r_rev ''abba'') = mset ''abba''"
    "shuffle_not_identity r_rev ''abba'' \<noteq> ''abba''" by blast+
  from shuffle_not_identity_spec [OF v, of "''aaa''"] h2
  have b: "shuffle_not_identity r_rev ''aaa'' = ''aaa''" by blast
  from shuffle_not_identity_spec [OF v, of "''a''"] h3
  have c: "shuffle_not_identity r_rev ''a'' = ''a''" by blast
  from shuffle_not_identity_spec [OF v, of "[]"] h4
  have d: "shuffle_not_identity r_rev [] = []" by blast
  from v e1 a [unfolded e1] e2 b c d show ?thesis by blast
qed

section \<open>The puzzle generator\<close>

lemma init_ready_state:
  assumes lw: "load_words file = Inr words"
    and st: "st = initial_state \<or> init file initial_state = (Inr (), st)"
  shows "\<exists>st'. init file st = (Inr (), st') \<and> init file initial_state = (Inr (), st')"
proof -
  from init_ready [OF lw st] obtain st' where
    s: "init file st = (Inr (), st')" "init file st' = (Inr (), st')" by blast
  from init_ready [OF lw, of initial_state] obtain st0 where
    s0: "init file initial_state = (Inr (), st0)" "init file st0 = (Inr (), st0)" by blast
  from st show ?thesis
  proof
    assume "st = initial_state"
    with s show ?thesis by blast
  next
    assume a: "init file initial_state = (Inr (), st)"
    with s0 have "st0 = st" by simp
    with s0 s have "st' = st" by simp
    with s a show ?thesis by blast
  qed
qed

lemma lower_fixed_chars: "lower w = w \<longleftrightarrow> (\<forall>c \<in> set w. lower_char c = c)"
proof -
  have "lower w = w \<longleftrightarrow> map lower_char w = map (\<lambda>c. c) w" by (simp add: lower_def)
  also have "\<dots> \<longleftrightarrow> (\<forall>c \<in> set w. lower_char c = c)" by (simp only: map_eq_conv)
  finally show ?thesis .
qed

lemma generate_puzzle_ready:
  assumes "init file st = (Inr (), st')" "BUCKET_WORDS st' = Some bw" "d \<in> {1, 2, 3, 4, 5}"
    "bw d = Some bucket"
  shows "generate_puzzle r file st (Some d) unsolvable =
     (if \<not> unsolvable
      then (if bucket = [] then (Inl IndexError, st')
            else (Inr (shuffle_not_identity r (choice_word r bucket)), st'))
      else (generate_unsolvable_from_words r st' bucket, st'))"
proof -
  have nd: "(d \<notin> {1, 2, 3, 4, 5}) = False" using assms(3) by blast
  show ?thesis
    unfolding generate_puzzle_def Let_def assms(1)
    by (simp only: prod.case sum.case option.case assms(2,4) nd if_False)
qed

text \<open>
  C8 (as amended). For a difficulty 1 to 5 and every outcome of the random draws,
  generate_puzzle without the unsolvable flag returns a string: a non-empty permutation of
  a word of that difficulty's bucket, which is a dictionary word. When that word is
  alphabetic, solve of the puzzle returns at least one word, the word itself among them.
\<close>

theorem generate_puzzle_solvable_spec:
  assumes "valid_random r"
    and "load_words file = Inr words"
    and "st = initial_state \<or> init file initial_state = (Inr (), st)"
    and "d \<in> {1, 2, 3, 4, 5}"
  shows "\<exists>st' bw bucket base p.
           generate_puzzle r file st (Some d) False = (Inr p, st') \<and>
           BUCKET_WORDS st' = Some bw \<and> bw d = Some bucket \<and>
           base \<in> set bucket \<and> base \<in> set words \<and>
           p \<noteq> [] \<and> mset p = mset base \<and>
           (list_all isalpha_char base \<longrightarrow>
              (\<exists>ws. fst (solve file st' p) = Inr ws \<and> ws \<noteq> [] \<and> base \<in> set ws))"
proof -
  from init_ready [OF assms(2,3)] obtain st' bw where
    i: "init file st = (Inr (), st')" "BUCKET_WORDS st' = Some bw"
       "\<forall>d \<in> {1, 2, 3, 4, 5}. truthy bw d" "\<forall>d ws. bw d = Some ws \<longrightarrow> set ws \<subseteq> set words"
    by blast
  from init_ready_state [OF assms(2,3)] i(1) have st': "init file initial_state = (Inr (), st')"
    by auto
  from i(3) assms(4) have "truthy bw d" by blast
  from truthy_Some [OF this] obtain bucket where b: "bw d = Some bucket" "bucket \<noteq> []" by blast
  let ?base = "choice_word r bucket"
  let ?p = "shuffle_not_identity r ?base"
  have base: "?base \<in> set bucket" using assms(1) b(2) by (simp add: valid_random_def)
  with i(4) b(1) have bw: "?base \<in> set words" by blast
  have g: "generate_puzzle r file st (Some d) False = (Inr ?p, st')"
    using b(2) by (simp add: generate_puzzle_ready [OF i(1,2) assms(4) b(1)])
  have perm: "mset ?p = mset ?base" using assms(1) by (rule shuffle_not_identity_mset)
  from load_words_word [OF assms(2) bw] have w: "?base \<noteq> []" "lower ?base = ?base" by simp_all
  with perm have ne: "?p \<noteq> []" by auto
  have "\<exists>ws. fst (solve file st' ?p) = Inr ws \<and> ws \<noteq> [] \<and> ?base \<in> set ws"
    if al: "list_all isalpha_char ?base"
  proof -
    from alpha_word_validates [OF w al perm] have "validate_input ?p ''puzzle'' = Inr ?p" .
    then have "fst (solve file st' ?p) = Inr (filter (\<lambda>x. signature x = signature ?p) words)"
      using solve_eq [OF assms(2), of st' ?p] st' by simp
    moreover have "?base \<in> set (filter (\<lambda>x. signature x = signature ?p) words)"
      using bw signature_mset [OF perm] by simp
    ultimately show ?thesis by (metis empty_iff list.set(1))
  qed
  with g i(2) b(1) base bw ne perm show ?thesis by blast
qed

theorem generate_puzzle_solvable_spec_witness:
  "valid_random r_rev \<and>
   load_words (Some [''dog'', ''god'', ''cat'', ''a'', ''zebras'']) =
     Inr [''dog'', ''god'', ''cat'', ''a'', ''zebras''] \<and>
   fst (generate_puzzle r_rev (Some [''dog'', ''god'', ''cat'', ''a'', ''zebras'']) initial_state
          (Some 5) False) = Inr ''sarbez'' \<and>
   (\<exists>ws. fst (solve (Some [''dog'', ''god'', ''cat'', ''a'', ''zebras''])
                 (snd (generate_puzzle r_rev (Some [''dog'', ''god'', ''cat'', ''a'', ''zebras''])
                         initial_state (Some 5) False)) ''sarbez'') = Inr ws \<and> ws \<noteq> []) \<and>
   fst (solve (Some [''dog'', ''god'', ''cat'', ''a'', ''zebras'']) initial_state ''sarbez'') =
     Inr [''zebras'']"
proof -
  let ?F = "Some [''dog'', ''god'', ''cat'', ''a'', ''zebras'']"
  let ?W = "[''dog'', ''god'', ''cat'', ''a'', ''zebras'']"
  have v: "valid_random r_rev" by (rule valid_random_r_rev)
  have h1: "load_words ?F = Inr ?W" by code_simp
  have h2: "initial_state = initial_state \<or> init ?F initial_state = (Inr (), initial_state)" by simp
  have h3: "(5 :: int) \<in> {1, 2, 3, 4, 5}" by simp
  have e: "fst (generate_puzzle r_rev ?F initial_state (Some 5) False) = Inr ''sarbez''" by code_simp
  have s: "fst (solve ?F initial_state ''sarbez'') = Inr [''zebras'']" by code_simp
  have al: "\<forall>w \<in> set ?W. list_all isalpha_char w" by code_simp
  from generate_puzzle_solvable_spec [OF v h1 h2 h3] obtain st' base p where
    g: "generate_puzzle r_rev ?F initial_state (Some 5) False = (Inr p, st')"
    and b: "base \<in> set ?W"
    and i: "list_all isalpha_char base \<longrightarrow>
              (\<exists>ws. fst (solve ?F st' p) = Inr ws \<and> ws \<noteq> [] \<and> base \<in> set ws)"
    by blast
  from g e have p: "p = ''sarbez''" by simp
  from g have st': "st' = snd (generate_puzzle r_rev ?F initial_state (Some 5) False)" by simp
  from al b have "list_all isalpha_char base" by blast
  with i have "\<exists>ws. fst (solve ?F st' p) = Inr ws \<and> ws \<noteq> []" by blast
  then have "\<exists>ws. fst (solve ?F (snd (generate_puzzle r_rev ?F initial_state (Some 5) False)) ''sarbez'')
      = Inr ws \<and> ws \<noteq> []" unfolding p st' .
  with v h1 e s show ?thesis by blast
qed

text \<open>
  With the dictionary line \<^verbatim>\<open>it's\<close>, every puzzle of the generator holds the apostrophe,
  and solve raises the non-alphabetic-input error on it instead of returning a word.
\<close>

theorem generate_puzzle_solvable_counterexample:
  "load_words (Some [''it's'']) = Inr [''it's''] \<and>
   fst (generate_puzzle r_rev (Some [''it's'']) initial_state (Some 1) False) =
     Inr [CHR ''s'', CHR 0x27, CHR ''t'', CHR ''i''] \<and>
   fst (solve (Some [''it's''])
          (snd (generate_puzzle r_rev (Some [''it's'']) initial_state (Some 1) False))
          [CHR ''s'', CHR 0x27, CHR ''t'', CHR ''i'']) = Inl (NonAlphabetic ''puzzle'')"
  by code_simp

lemma set_single_vowel_mutations:
  "set (single_vowel_mutations w) =
     (\<Union>pos \<in> {i \<in> {0..<length w}. w ! i \<in> VOWELS}. (\<lambda>v. w[pos := v]) ` {v \<in> VOWELS. v \<noteq> w ! pos})"
  unfolding single_vowel_mutations_def Let_def
  by (simp only: set_concat set_map set_filter set_upt image_image VOWELS_def [symmetric])

lemma single_vowel_mutations_iff:
  "m \<in> set (single_vowel_mutations w) \<longleftrightarrow>
     (\<exists>pos v. pos < length w \<and> w ! pos \<in> VOWELS \<and> v \<in> VOWELS \<and> v \<noteq> w ! pos \<and> m = w[pos := v])"
  unfolding set_single_vowel_mutations by auto

lemma try_mutations_Some:
  "try_mutations am ms = Some m \<Longrightarrow> m \<in> set ms \<and> am (signature m) = None"
  by (induction ms) (auto simp add: Let_def split: if_splits)

lemma try_words_Some:
  "try_words am bs = Some m \<Longrightarrow>
     \<exists>b \<in> set bs. m \<in> set (single_vowel_mutations b) \<and> am (signature m) = None"
proof (induction bs)
  case Nil
  then show ?case by simp
next
  case (Cons b bs)
  show ?case
  proof (cases "try_mutations am (single_vowel_mutations b)")
    case None
    with Cons show ?thesis by simp
  next
    case (Some m')
    with Cons.prems have "m' = m" by simp
    with try_mutations_Some [OF Some] show ?thesis by simp
  qed
qed

lemma generate_unsolvable_Inr:
  assumes "valid_random r" "ANAGRAM_MAP st = Some am"
    "generate_unsolvable_from_words r st bucket = Inr p"
  shows "\<exists>base mutated. base \<in> set bucket \<and> mutated \<in> set (single_vowel_mutations base) \<and>
           am (signature mutated) = None \<and> p = shuffle_not_identity r mutated"
proof -
  let ?wv = "filter (\<lambda>w. list_ex (\<lambda>ch. ch \<in> VOWELS) w) bucket"
  from assms(2,3) obtain m where
    m: "try_words am (shuffle_words r ?wv) = Some m" "p = shuffle_not_identity r m"
    by (auto simp add: generate_unsolvable_from_words_def Let_def split: if_splits option.splits)
  from try_words_Some [OF m(1)] obtain b where
    b: "b \<in> set (shuffle_words r ?wv)" "m \<in> set (single_vowel_mutations b)" "am (signature m) = None"
    by blast
  have "mset (shuffle_words r ?wv) = mset ?wv" using assms(1) by (simp add: valid_random_def)
  then have "set (shuffle_words r ?wv) = set ?wv" by (rule mset_eq_setD)
  with b(1) have "b \<in> set bucket" by simp
  with b(2,3) m(2) show ?thesis by blast
qed

lemma in_VOWELS: "v \<in> VOWELS \<longleftrightarrow> v = CHR ''a'' \<or> v = CHR ''e'' \<or> v = CHR ''i'' \<or> v = CHR ''o'' \<or> v = CHR ''u''"
  unfolding VOWELS_def by simp
lemma vowel_chars:
  "isalpha_char CHR ''a''" "isalpha_char CHR ''e''" "isalpha_char CHR ''i''" "isalpha_char CHR ''o''" "isalpha_char CHR ''u''"
  "lower_char CHR ''a'' = CHR ''a''" "lower_char CHR ''e'' = CHR ''e''" "lower_char CHR ''i'' = CHR ''i''"
  "lower_char CHR ''o'' = CHR ''o''" "lower_char CHR ''u'' = CHR ''u''"
  by code_simp+
lemma vowel_facts: "v \<in> VOWELS \<Longrightarrow> isalpha_char v \<and> lower_char v = v"
  unfolding in_VOWELS using vowel_chars by blast

lemma spec_signature_index_None:
  "spec_signature_index words sig = None \<longleftrightarrow> (\<forall>w \<in> set words. signature w \<noteq> sig)"
  by (simp add: spec_signature_index_def Let_def filter_empty_conv)

text \<open>
  C2 (as amended). For a difficulty 1 to 5 and every outcome of the random draws, a
  string \<open>p\<close> that generate_puzzle returns with the unsolvable flag is a permutation of a
  single-vowel mutation of a word of that difficulty's bucket, a dictionary word; the
  signature of the mutation, which is the signature of \<open>p\<close>, is the signature of no
  dictionary word and is absent from the Signature Index. When the dictionary word is
  alphabetic, solve of \<open>p\<close> returns the empty sequence.
\<close>

theorem generate_puzzle_unsolvable_spec:
  assumes "valid_random r"
    and "load_words file = Inr words"
    and "st = initial_state \<or> init file initial_state = (Inr (), st)"
    and "d \<in> {1, 2, 3, 4, 5}"
    and "generate_puzzle r file st (Some d) True = (Inr p, st')"
  shows "\<exists>am bw bucket base pos v.
           ANAGRAM_MAP st' = Some am \<and> BUCKET_WORDS st' = Some bw \<and> bw d = Some bucket \<and>
           base \<in> set bucket \<and> base \<in> set words \<and>
           pos < length base \<and> base ! pos \<in> VOWELS \<and> v \<in> VOWELS \<and> v \<noteq> base ! pos \<and>
           mset p = mset (base[pos := v]) \<and>
           (\<forall>w \<in> set words. signature w \<noteq> signature (base[pos := v])) \<and>
           am (signature p) = None \<and>
           (list_all isalpha_char base \<longrightarrow> fst (solve file st' p) = Inr [])"
proof -
  from init_ready [OF assms(2,3)] obtain st1 bw where
    i: "init file st = (Inr (), st1)" "ANAGRAM_MAP st1 = Some (spec_signature_index words)"
       "BUCKET_WORDS st1 = Some bw"
       "\<forall>d \<in> {1, 2, 3, 4, 5}. truthy bw d" "\<forall>d ws. bw d = Some ws \<longrightarrow> set ws \<subseteq> set words"
    by blast
  from init_ready_state [OF assms(2,3)] i(1) have st1: "init file initial_state = (Inr (), st1)"
    by auto
  from i(4) assms(4) have "truthy bw d" by blast
  from truthy_Some [OF this] obtain bucket where b: "bw d = Some bucket" by blast
  have gp: "generate_puzzle r file st (Some d) True =
      (generate_unsolvable_from_words r st1 bucket, st1)"
    by (simp add: generate_puzzle_ready [OF i(1,3) assms(4) b])
  from assms(5) [unfolded gp]
  have g: "generate_unsolvable_from_words r st1 bucket = Inr p" and st': "st' = st1"
    by blast+
  from generate_unsolvable_Inr [OF assms(1) i(2) g] obtain base mutated where
    m: "base \<in> set bucket" "mutated \<in> set (single_vowel_mutations base)"
       "spec_signature_index words (signature mutated) = None" "p = shuffle_not_identity r mutated"
    by blast
  from m(2) obtain pos v where
    pv: "pos < length base" "base ! pos \<in> VOWELS" "v \<in> VOWELS" "v \<noteq> base ! pos"
        "mutated = base[pos := v]"
    unfolding single_vowel_mutations_iff by blast
  from m(1) i(5) b have bw: "base \<in> set words" by blast
  have perm: "mset p = mset mutated" unfolding m(4) using assms(1) by (rule shuffle_not_identity_mset)
  then have sig: "signature p = signature mutated" by (rule signature_mset)
  have nosig: "\<forall>w \<in> set words. signature w \<noteq> signature mutated"
    using m(3) unfolding spec_signature_index_None .
  have absent: "spec_signature_index words (signature p) = None" unfolding sig by (rule m(3))
  have solve: "fst (solve file st' p) = Inr []" if al: "list_all isalpha_char base"
  proof -
    from load_words_word [OF assms(2) bw] have lb: "lower base = base" by simp
    have sub: "set mutated \<subseteq> insert v (set base)" unfolding pv(5) by (rule set_update_subset_insert)
    have "\<forall>c \<in> set mutated. lower_char c = c"
      using sub lb vowel_facts [OF pv(3)] unfolding lower_fixed_chars by blast
    then have lm: "lower mutated = mutated" unfolding lower_fixed_chars .
    have am: "list_all isalpha_char mutated"
      using sub al vowel_facts [OF pv(3)] unfolding list_all_iff by blast
    have ne: "mutated \<noteq> []" using pv(1) unfolding pv(5) by auto
    from alpha_word_validates [OF ne lm am perm] have "validate_input p ''puzzle'' = Inr p" .
    then have "fst (solve file st' p) = Inr (filter (\<lambda>x. signature x = signature p) words)"
      using solve_eq [OF assms(2), of st' p] st1 st' by simp
    moreover have "filter (\<lambda>x. signature x = signature p) words = []"
      using nosig unfolding sig by (simp add: filter_empty_conv)
    ultimately show ?thesis by simp
  qed
  from i(2,3) b m(1) bw pv(1-4) perm nosig absent solve show ?thesis
    unfolding st' pv(5) by blast
qed

theorem generate_puzzle_unsolvable_spec_witness:
  "valid_random r_rev \<and>
   load_words (Some [''dog'', ''god'', ''cat'', ''a'', ''zebras'']) =
     Inr [''dog'', ''god'', ''cat'', ''a'', ''zebras''] \<and>
   fst (generate_puzzle r_rev (Some [''dog'', ''god'', ''cat'', ''a'', ''zebras'']) initial_state
          (Some 2) True) = Inr ''tec'' \<and>
   fst (solve (Some [''dog'', ''god'', ''cat'', ''a'', ''zebras''])
          (snd (generate_puzzle r_rev (Some [''dog'', ''god'', ''cat'', ''a'', ''zebras''])
                  initial_state (Some 2) True)) ''tec'') = Inr []"
proof -
  let ?F = "Some [''dog'', ''god'', ''cat'', ''a'', ''zebras'']"
  let ?W = "[''dog'', ''god'', ''cat'', ''a'', ''zebras'']"
  let ?S = "snd (generate_puzzle r_rev ?F initial_state (Some 2) True)"
  have v: "valid_random r_rev" by (rule valid_random_r_rev)
  have h1: "load_words ?F = Inr ?W" by code_simp
  have h2: "initial_state = initial_state \<or> init ?F initial_state = (Inr (), initial_state)" by simp
  have h3: "(2 :: int) \<in> {1, 2, 3, 4, 5}" by simp
  have e: "fst (generate_puzzle r_rev ?F initial_state (Some 2) True) = Inr ''tec''" by code_simp
  then have h4: "generate_puzzle r_rev ?F initial_state (Some 2) True = (Inr ''tec'', ?S)"
    by (simp add: prod_eq_iff)
  have al: "\<forall>w \<in> set ?W. list_all isalpha_char w" by code_simp
  from generate_puzzle_unsolvable_spec [OF v h1 h2 h3 h4] obtain base where
    b: "base \<in> set ?W"
    and i: "list_all isalpha_char base \<longrightarrow> fst (solve ?F ?S ''tec'') = Inr []"
    by blast
  from al b have "list_all isalpha_char base" by blast
  with i have "fst (solve ?F ?S ''tec'') = Inr []" by blast
  with v h1 e show ?thesis by blast
qed

text \<open>
  With the dictionary line \<^verbatim>\<open>it's\<close>, the unsolvable puzzle holds the apostrophe, and solve
  raises the non-alphabetic-input error on it instead of returning the empty sequence.
\<close>

theorem generate_puzzle_unsolvable_counterexample:
  "load_words (Some [''it's'']) = Inr [''it's''] \<and>
   fst (generate_puzzle r_rev (Some [''it's'']) initial_state (Some 1) True) =
     Inr [CHR ''s'', CHR 0x27, CHR ''t'', CHR ''a''] \<and>
   fst (solve (Some [''it's''])
          (snd (generate_puzzle r_rev (Some [''it's'']) initial_state (Some 1) True))
          [CHR ''s'', CHR 0x27, CHR ''t'', CHR ''a'']) = Inl (NonAlphabetic ''puzzle'')"
  by code_simp

end
